theory Spec2Isabelle
  imports Complex_Main
begin

section \<open>Numbers and vectors\<close>

text \<open>
  The Go kernel computes in \<open>float64\<close> and the JavaScript in IEEE doubles, and the
  particle arrays are \<open>Float32Array\<close>s. The program is modelled at two levels.

  First, the two velocity kernels and the tick \<open>updateParticles\<close> are modelled on
  \<^typ>\<open>real\<close>. The theorems on this model are about the branch that the code takes and
  about the closed-form formulas at inputs where every intermediate value is a dyadic
  number, which the doubles and the singles of a \<open>Float32Array\<close> hold exactly. On the
  reals \<open>a / 0\<close> is \<open>0\<close>, where the doubles give an infinity or NaN: with a positive
  radius the only divisor that can be zero is \<open>objectRadius * freeStreamVelocity\<close> in
  the airfoil case, at free-stream speed 0, where both kernels compute \<open>0 / 0\<close>.

  Second, the velocity kernels, the pressure of \<open>calculatePressure\<close> and the loop that
  integrates and recycles the particles are modelled on the values of IEEE 754, with every
  rounding, the infinities and NaN. The theorems about the agreement of the kernels, the
  monotonicity of the pressure, the recycling and the bounding volume are about this
  model.
\<close>

type_synonym vec3 = "real \<times> real \<times> real"

text \<open>\<open>Math.atan2(y, x)\<close> and \<open>math.Atan2(y, x)\<close>, on reals (no signed zero).\<close>

definition atan2 :: "real \<Rightarrow> real \<Rightarrow> real" where
  "atan2 y x =
     (if x > 0 then arctan (y / x)
      else if x < 0 then (if y \<ge> 0 then arctan (y / x) + pi else arctan (y / x) - pi)
      else if y > 0 then pi / 2
      else if y < 0 then - (pi / 2)
      else 0)"

section \<open>The compiled kernel: \<open>fluid_sim.go\<close>\<close>

definition SPHERE :: int where "SPHERE = 0"
definition CYLINDER :: int where "CYLINDER = 1"
definition AIRFOIL :: int where "AIRFOIL = 2"

text \<open>
  The locals of the \<open>SPHERE\<close> and \<open>CYLINDER\<close> cases of \<open>updateVelocities\<close>
  (lines 68 and 75-82), each as a function of the locals it reads.
\<close>

definition factor_SPHERE :: "real \<Rightarrow> real \<Rightarrow> real" where
  "factor_SPHERE objectRadius r = objectRadius ^ 3 / r ^ 3"

definition rxy_CYLINDER :: "real \<Rightarrow> real \<Rightarrow> real" where
  "rxy_CYLINDER x y = sqrt (x * x + y * y)"

definition factor_CYLINDER :: "real \<Rightarrow> real \<Rightarrow> real" where
  "factor_CYLINDER objectRadius rxy = (objectRadius / rxy) ^ 2"

definition vx_CYLINDER :: "real \<Rightarrow> real \<Rightarrow> real \<Rightarrow> real \<Rightarrow> real" where
  "vx_CYLINDER freeStreamVelocity factor rxy x =
     freeStreamVelocity * (1 - factor * (2 * x * x / (rxy * rxy) - 1))"

definition vy_CYLINDER :: "real \<Rightarrow> real \<Rightarrow> real \<Rightarrow> real \<Rightarrow> real \<Rightarrow> real" where
  "vy_CYLINDER freeStreamVelocity factor rxy x y =
     freeStreamVelocity * (- factor * 2 * x * y / (rxy * rxy))"

definition pressure_CYLINDER :: "real \<Rightarrow> real \<Rightarrow> real \<Rightarrow> real \<Rightarrow> real" where
  "pressure_CYLINDER fluidDensity freeStreamVelocity vx vy =
     fluidDensity * (0.5 * freeStreamVelocity * freeStreamVelocity - 0.5 * (vx * vx + vy * vy))"

text \<open>
  The body of the particle loop of \<open>updateVelocities\<close> (lines 56-121): the velocity at
  the position \<open>(x, y, z)\<close> relative to the object. A switch with no default leaves the
  free stream \<open>(freeStreamVelocity, 0, 0)\<close> for any other \<open>objectType\<close>.
\<close>

definition particleVelocity :: "int \<Rightarrow> real \<Rightarrow> real \<Rightarrow> real \<Rightarrow> vec3 \<Rightarrow> vec3" where
  "particleVelocity objectType objectRadius freeStreamVelocity fluidDensity p =
     (case p of (x, y, z) \<Rightarrow>
        let r = sqrt (x * x + y * y + z * z) in
        if r > objectRadius then
          (if objectType = SPHERE then
             (let factor = factor_SPHERE objectRadius r in
                (freeStreamVelocity * (1 - factor * (3 * x * x / (2 * r * r) - 0.5)),
                 freeStreamVelocity * (- factor * 3 * x * y / (2 * r * r)),
                 freeStreamVelocity * (- factor * 3 * x * z / (2 * r * r))))
           else if objectType = CYLINDER then
             (let rxy = rxy_CYLINDER x y in
                if rxy > objectRadius then
                  (let factor = factor_CYLINDER objectRadius rxy;
                       vx = vx_CYLINDER freeStreamVelocity factor rxy x;
                       vy = vy_CYLINDER freeStreamVelocity factor rxy x y;
                       pressure = pressure_CYLINDER fluidDensity freeStreamVelocity vx vy
                   in (vx, vy, 0 + z * pressure * 0.01))
                else (0, 0, 0))
           else if objectType = AIRFOIL then
             (let rxy = sqrt (x * x + y * y);
                  angle = atan2 y x;
                  circulation = freeStreamVelocity * 4 * pi * objectRadius * sin angle
              in if rxy > objectRadius then
                   (let factor = (objectRadius / rxy) ^ 2;
                        vx = freeStreamVelocity * (1 - factor * cos (2 * angle));
                        vy = freeStreamVelocity * (- factor * sin (2 * angle))
                               + circulation / (2 * pi * rxy);
                        vz = 0.1 * z * (vx * vx + vy * vy) / (objectRadius * freeStreamVelocity)
                    in (vx, vy, vz))
                 else (0, 0, 0))
           else (freeStreamVelocity, 0, 0))
        else (0, 0, 0))"

section \<open>The scalar kernel: \<open>updateVelocitiesJS\<close> of \<open>Main.js\<close>\<close>

text \<open>
  The file \<open>src/unnamed/part_000\<close> holds two copies of \<open>Main.js\<close>, an earlier one
  (lines 162-718) and a later one with the wind tunnel (lines 718-1440); the line numbers
  below are those of \<open>part_000\<close>. First the later copy: the locals of the \<open>'sphere'\<close>
  and \<open>'cylinder'\<close> cases (lines 1215 and 1223-1230).
\<close>

definition factorSphere :: "real \<Rightarrow> real \<Rightarrow> real" where
  "factorSphere radius r = radius ^ 3 / r ^ 3"

definition rxyC :: "real \<Rightarrow> real \<Rightarrow> real" where
  "rxyC x y = sqrt (x * x + y * y)"

definition factorCyl :: "real \<Rightarrow> real \<Rightarrow> real" where
  "factorCyl radius rxy = (radius / rxy) ^ 2"

definition vxCyl :: "real \<Rightarrow> real \<Rightarrow> real \<Rightarrow> real \<Rightarrow> real" where
  "vxCyl freeStreamVelocity fc rxy x =
     freeStreamVelocity * (1 - fc * (2 * x * x / (rxy * rxy) - 1))"

definition vyCyl :: "real \<Rightarrow> real \<Rightarrow> real \<Rightarrow> real \<Rightarrow> real \<Rightarrow> real" where
  "vyCyl freeStreamVelocity fc rxy x y =
     freeStreamVelocity * (- fc * 2 * x * y / (rxy * rxy))"

definition pressureCyl :: "real \<Rightarrow> real \<Rightarrow> real \<Rightarrow> real \<Rightarrow> real" where
  "pressureCyl fluidDensity freeStreamVelocity vx vy =
     fluidDensity * (0.5 * freeStreamVelocity * freeStreamVelocity - 0.5 * (vx * vx + vy * vy))"

text \<open>The object radius is a constant of the script (line 1196), not a parameter.\<close>

definition radius :: real where
  "radius = 1.0"

text \<open>
  The target velocity \<open>(vx, vy, vz)\<close> of one particle, lines 1203-1270, before the
  damping of lines 1273-1275. \<open>objectType\<close> is the string of \<open>simulationParams\<close>.
\<close>

definition targetVelocityJS :: "string \<Rightarrow> real \<Rightarrow> real \<Rightarrow> vec3 \<Rightarrow> vec3" where
  "targetVelocityJS objectType freeStreamVelocity fluidDensity p =
     (case p of (x, y, z) \<Rightarrow>
        let r = sqrt (x * x + y * y + z * z) in
        if r > radius then
          (if objectType = ''sphere'' then
             (let fs = factorSphere radius r in
                (freeStreamVelocity * (1 - fs * (3 * x * x / (2 * r * r) - 0.5)),
                 freeStreamVelocity * (- fs * 3 * x * y / (2 * r * r)),
                 freeStreamVelocity * (- fs * 3 * x * z / (2 * r * r))))
           else if objectType = ''cylinder'' then
             (let rxy = rxyC x y in
                if rxy > radius then
                  (let fc = factorCyl radius rxy;
                       vx = vxCyl freeStreamVelocity fc rxy x;
                       vy = vyCyl freeStreamVelocity fc rxy x y;
                       pressure = pressureCyl fluidDensity freeStreamVelocity vx vy
                   in (vx, vy, 0 + z * pressure * 0.01))
                else (0, 0, 0))
           else if objectType = ''airfoil'' then
             (let rxyA = sqrt (x * x + y * y);
                  angle = atan2 y x;
                  circulation = freeStreamVelocity * 4 * pi * radius * sin angle
              in if rxyA > radius then
                   (let factor = (radius / rxyA) ^ 2;
                        vx = freeStreamVelocity * (1 - factor * cos (2 * angle));
                        vy = freeStreamVelocity * (- factor * sin (2 * angle))
                               + circulation / (2 * pi * rxyA);
                        vz = 0.1 * z * (vx * vx + vy * vy) / (radius * freeStreamVelocity)
                    in (vx, vy, vz))
                 else (0, 0, 0))
           else (freeStreamVelocity, 0, 0))
        else (0, 0, 0))"

text \<open>
  The earlier copy of \<open>Main.js\<close> has its own \<open>updateVelocitiesJS\<close> (lines 483-555).
  Its target velocity, lines 497-548: the outer test has no \<open>else\<close>, the cylinder has
  no pressure term and resets only \<open>vx\<close> and \<open>vy\<close> (\<open>vz\<close> is still \<open>0\<close>), and the
  airfoil's circulation has the factor \<open>2\<close> and its \<open>vz\<close> is \<open>0\<close>.
\<close>

definition targetVelocityJS_earlier :: "string \<Rightarrow> real \<Rightarrow> vec3 \<Rightarrow> vec3" where
  "targetVelocityJS_earlier objectType freeStreamVelocity p =
     (case p of (x, y, z) \<Rightarrow>
        let r = sqrt (x * x + y * y + z * z) in
        if r > radius then
          (if objectType = ''sphere'' then
             (let fs = radius ^ 3 / r ^ 3 in
                (freeStreamVelocity * (1 - fs * (3 * x * x / (2 * r * r) - 0.5)),
                 freeStreamVelocity * (- fs * 3 * x * y / (2 * r * r)),
                 freeStreamVelocity * (- fs * 3 * x * z / (2 * r * r))))
           else if objectType = ''cylinder'' then
             (let rxy = sqrt (x * x + y * y) in
                if rxy > radius then
                  (let fc = (radius / rxy) ^ 2 in
                     (freeStreamVelocity * (1 - fc * (2 * x * x / (rxy * rxy) - 1)),
                      freeStreamVelocity * (- fc * 2 * x * y / (rxy * rxy)),
                      0))
                else (0, 0, 0))
           else if objectType = ''airfoil'' then
             (let angle = atan2 y x;
                  circulation = freeStreamVelocity * 2 * pi * radius * sin angle;
                  rxy2 = sqrt (x * x + y * y)
              in if rxy2 > radius then
                   (let factorAirfoil = (radius / rxy2) ^ 2 in
                      (freeStreamVelocity * (1 - factorAirfoil * cos (2 * angle)),
                       freeStreamVelocity * (- factorAirfoil * sin (2 * angle))
                         + circulation / (2 * pi * rxy2),
                       0))
                 else (0, 0, 0))
           else (freeStreamVelocity, 0, 0))
        else (freeStreamVelocity, 0, 0))"

section \<open>The array entry points of \<open>fluid_sim.go\<close>\<close>

text \<open>
  What a call of a function exported by the Go program gives to its JavaScript caller: a
  \<open>Float32Array\<close>, or a failure. \<open>Value.Float\<close> panics on \<open>undefined\<close>, which is
  what \<open>Index\<close> returns beyond the end of the typed array; the panic ends the Go
  program, and for the caller the call has failed: the model returns \<open>Inl Thrown\<close>.
\<close>

datatype js_exception = Thrown

text \<open>
  \<open>updateVelocities\<close> (lines 32-130). The result array is \<open>count * 3\<close> zeros; the loop
  writes the three velocity components of particle \<open>i\<close> at \<open>idx = i * 3\<close>.
\<close>

definition updateVelocities ::
  "real list \<Rightarrow> nat \<Rightarrow> real \<Rightarrow> real \<Rightarrow> real \<Rightarrow> real \<Rightarrow> real \<Rightarrow> int \<Rightarrow> real
     \<Rightarrow> js_exception + real list" where
  "updateVelocities positionsJS count freeStreamVelocity fluidDensity objectX objectY objectZ
       objectType objectRadius =
     (if length positionsJS < count * 3 then Inl Thrown
      else Inr (fold
        (\<lambda>i resultJS.
           let idx = i * 3;
               x = positionsJS ! idx - objectX;
               y = positionsJS ! (idx + 1) - objectY;
               z = positionsJS ! (idx + 2) - objectZ
           in case particleVelocity objectType objectRadius freeStreamVelocity fluidDensity
                     (x, y, z) of
                (vx, vy, vz) \<Rightarrow> resultJS[idx := vx, idx + 1 := vy, idx + 2 := vz])
        [0..<count] (replicate (count * 3) 0)))"

section \<open>Doubles and the stores of a typed array\<close>

text \<open>
  The claims about the agreement of the kernels, the pressure, the recycling and the
  bounding volume are about the values the program holds: doubles (\<open>float64\<close> in Go,
  numbers in JavaScript) and, in a \<open>Float32Array\<close>, their roundings to single
  precision. A value is a finite real, an infinity or NaN. The arithmetic is that of
  IEEE 754 with rounding to nearest, ties to even: the exact result is rounded to \<open>p\<close>
  significant bits, with \<open>emin\<close> the exponent of the last bit of the subnormal numbers,
  and becomes an infinity when the rounded result lies beyond the largest finite value.

  The two zeros are one value here. The pressure and the loop that integrates and recycles
  add, multiply, halve, compare and take absolute values, and none of these tells the two
  zeros apart. The velocity kernels also divide and pass their values to library
  functions, where the sign of a zero can matter; the two kernels are only compared with
  each other, on the same values.
\<close>

text \<open>Rounding of a real to the nearest integer, ties to the even one.\<close>

definition round_even :: "real \<Rightarrow> int" where
  "round_even t =
     (let f = \<lfloor>t\<rfloor>; d = t - of_int f
      in if d < 1 / 2 then f else if 1 / 2 < d then f + 1 else if even f then f else f + 1)"

text \<open>
  The exponent of the last bit of a number with \<open>p\<close> significant bits in the binade of
  \<open>x\<close>, and the rounding of \<open>x\<close> to a multiple of that power of two.
\<close>

definition ulp_exponent :: "nat \<Rightarrow> int \<Rightarrow> real \<Rightarrow> int" where
  "ulp_exponent p emin x = max emin (\<lfloor>log 2 \<bar>x\<bar>\<rfloor> - int p + 1)"

definition round_to :: "nat \<Rightarrow> int \<Rightarrow> real \<Rightarrow> real" where
  "round_to p emin x =
     (if x = 0 then 0
      else of_int (round_even (x / 2 powr of_int (ulp_exponent p emin x)))
             * 2 powr of_int (ulp_exponent p emin x))"

datatype fp = Fin real | PInf | NInf | NaN

definition round_fp :: "nat \<Rightarrow> int \<Rightarrow> real \<Rightarrow> real \<Rightarrow> fp" where
  "round_fp p emin maxf x =
     (let y = round_to p emin x
      in if maxf < y then PInf else if y < - maxf then NInf else Fin y)"

text \<open>The largest finite double and the largest finite single.\<close>

definition max64 :: real where "max64 = (2 ^ 53 - 1) * 2 ^ 971"
definition max32 :: real where "max32 = (2 ^ 24 - 1) * 2 ^ 104"

definition float64 :: "real \<Rightarrow> fp" where
  "float64 x = round_fp 53 (- 1074) max64 x"

definition float32 :: "real \<Rightarrow> fp" where
  "float32 x = round_fp 24 (- 149) max32 x"

text \<open>
  What a store into a \<open>Float32Array\<close> keeps of a double (\<open>Math.fround\<close>); reading the
  slot gives this value back as a double.
\<close>

fun fround :: "fp \<Rightarrow> fp" where
  "fround (Fin x) = float32 x"
| "fround v = v"

fun fneg :: "fp \<Rightarrow> fp" where
  "fneg (Fin x) = Fin (- x)"
| "fneg PInf = NInf"
| "fneg NInf = PInf"
| "fneg NaN = NaN"

fun fabs :: "fp \<Rightarrow> fp" where
  "fabs (Fin x) = Fin \<bar>x\<bar>"
| "fabs PInf = PInf"
| "fabs NInf = PInf"
| "fabs NaN = NaN"

fun fadd :: "fp \<Rightarrow> fp \<Rightarrow> fp" where
  "fadd (Fin x) (Fin y) = float64 (x + y)"
| "fadd NaN v = NaN"
| "fadd v NaN = NaN"
| "fadd PInf NInf = NaN"
| "fadd NInf PInf = NaN"
| "fadd PInf v = PInf"
| "fadd NInf v = NInf"
| "fadd v PInf = PInf"
| "fadd v NInf = NInf"

definition fsub :: "fp \<Rightarrow> fp \<Rightarrow> fp" where
  "fsub a b = fadd a (fneg b)"

fun fmul :: "fp \<Rightarrow> fp \<Rightarrow> fp" where
  "fmul (Fin x) (Fin y) = float64 (x * y)"
| "fmul NaN v = NaN"
| "fmul v NaN = NaN"
| "fmul (Fin x) PInf = (if x = 0 then NaN else if 0 < x then PInf else NInf)"
| "fmul (Fin x) NInf = (if x = 0 then NaN else if 0 < x then NInf else PInf)"
| "fmul PInf (Fin y) = (if y = 0 then NaN else if 0 < y then PInf else NInf)"
| "fmul NInf (Fin y) = (if y = 0 then NaN else if 0 < y then NInf else PInf)"
| "fmul PInf PInf = PInf"
| "fmul PInf NInf = NInf"
| "fmul NInf PInf = NInf"
| "fmul NInf NInf = PInf"

text \<open>Division; a zero divisor is taken as the positive zero.\<close>

fun fdiv :: "fp \<Rightarrow> fp \<Rightarrow> fp" where
  "fdiv (Fin x) (Fin y) =
     (if y = 0 then (if x = 0 then NaN else if 0 < x then PInf else NInf)
      else float64 (x / y))"
| "fdiv NaN v = NaN"
| "fdiv v NaN = NaN"
| "fdiv (Fin x) PInf = Fin 0"
| "fdiv (Fin x) NInf = Fin 0"
| "fdiv PInf (Fin y) = (if 0 \<le> y then PInf else NInf)"
| "fdiv NInf (Fin y) = (if 0 \<le> y then NInf else PInf)"
| "fdiv PInf PInf = NaN"
| "fdiv PInf NInf = NaN"
| "fdiv NInf PInf = NaN"
| "fdiv NInf NInf = NaN"

text \<open>The comparisons \<open>\<le>\<close> and \<open>>\<close>: both are false when an operand is NaN.\<close>

fun fle :: "fp \<Rightarrow> fp \<Rightarrow> bool" where
  "fle (Fin x) (Fin y) = (x \<le> y)"
| "fle NaN v = False"
| "fle v NaN = False"
| "fle NInf v = True"
| "fle v PInf = True"
| "fle PInf v = False"
| "fle v NInf = False"

fun fgt :: "fp \<Rightarrow> fp \<Rightarrow> bool" where
  "fgt (Fin x) (Fin y) = (y < x)"
| "fgt NaN v = False"
| "fgt v NaN = False"
| "fgt PInf PInf = False"
| "fgt PInf v = True"
| "fgt NInf v = False"
| "fgt v NInf = True"
| "fgt v PInf = False"

text \<open>The three slots of particle \<open>i\<close> in a flat array.\<close>

definition slots :: "'a list \<Rightarrow> nat \<Rightarrow> 'a \<times> 'a \<times> 'a" where
  "slots xs i = (xs ! (i * 3), xs ! (i * 3 + 1), xs ! (i * 3 + 2))"

section \<open>\<open>calculatePressure\<close> of \<open>fluid_sim.go\<close>\<close>

text \<open>
  The local \<open>v2\<close> of the loop (line 153), the squared magnitude of a velocity as the
  doubles give it: each product and each sum is rounded.
\<close>

definition magnitudeSquared :: "fp \<times> fp \<times> fp \<Rightarrow> fp" where
  "magnitudeSquared v =
     (case v of (vx, vy, vz) \<Rightarrow> fadd (fadd (fmul vx vx) (fmul vy vy)) (fmul vz vz))"

text \<open>
  The pressure of one particle (lines 144 and 153-158): \<open>pRef\<close>, \<open>v2\<close> and \<open>pressure\<close>
  are doubles, and \<open>SetIndex\<close> stores the pressure into a \<open>Float32Array\<close>.
\<close>

definition particlePressure :: "fp \<Rightarrow> fp \<Rightarrow> fp \<times> fp \<times> fp \<Rightarrow> fp" where
  "particlePressure freeStreamVelocity fluidDensity v =
     (let pRef = fmul (fmul (fmul (Fin 0.5) fluidDensity) freeStreamVelocity) freeStreamVelocity;
          v2 = magnitudeSquared v;
          pressure = fsub pRef (fmul (fmul (Fin 0.5) fluidDensity) v2)
      in fround pressure)"

text \<open>
  \<open>calculatePressure\<close> (lines 133-162): one pressure per particle, in a new
  \<open>Float32Array\<close> of \<open>count\<close> zeros. As in \<open>updateVelocities\<close>, reading beyond the end
  of the velocities fails.
\<close>

definition calculatePressure ::
  "fp list \<Rightarrow> nat \<Rightarrow> fp \<Rightarrow> fp \<Rightarrow> js_exception + fp list" where
  "calculatePressure velocitiesJS count freeStreamVelocity fluidDensity =
     (if length velocitiesJS < count * 3 then Inl Thrown
      else Inr (fold
        (\<lambda>i resultJS.
           let idx = i * 3;
               vx = velocitiesJS ! idx;
               vy = velocitiesJS ! (idx + 1);
               vz = velocitiesJS ! (idx + 2)
           in resultJS[i := particlePressure freeStreamVelocity fluidDensity (vx, vy, vz)])
        [0..<count] (replicate count (Fin 0))))"

text \<open>The exact magnitude of a velocity, for stating properties of the pressure.\<close>

definition speed :: "vec3 \<Rightarrow> real" where
  "speed v = (case v of (vx, vy, vz) \<Rightarrow> sqrt (vx * vx + vy * vy + vz * vz))"

section \<open>The two velocity kernels on doubles\<close>










section \<open>The simulation state of \<open>Main.js\<close> (later copy)\<close>

record simulationParams_t =
  freeStreamVelocity :: real
  particleCount :: nat
  fluidDensity :: real
  objectType :: string

text \<open>
  The two typed arrays of the particle system (\<open>geometry.attributes.position.array\<close> and
  \<open>userData.velocities\<close>) and the flag the tick sets for the renderer. A read beyond the
  end of a typed array gives \<open>undefined\<close> in JavaScript; \<open>xs ! i\<close> is unspecified there,
  so the theorems about particle \<open>i\<close> assume that both arrays hold its three slots. A
  write beyond the end is ignored, as \<open>xs[i := v]\<close> does.
\<close>

record particles_t =
  positions :: "real list"
  velocities :: "real list"
  needsUpdate :: bool

record tunnel_t =
  entryX :: real
  exitX :: real
  width :: real
  height :: real

text \<open>The literal that \<open>updateParticles\<close> uses when \<open>window.tunnelDimensions\<close> is unset.\<close>

definition defaultTunnel :: tunnel_t where
  "defaultTunnel = \<lparr>entryX = - 10, exitX = 10, width = 8, height = 8\<rparr>"

text \<open>
  The globals that \<open>updateParticles\<close> reads. \<open>particles\<close> and \<open>simulationObject\<close> may be
  unset (\<open>None\<close>); of the object only its position is read. \<open>wasmModule\<close> is whether the
  global is non-null. \<open>randomCalls\<close> counts the calls of \<open>Math.random\<close> made so far: the
  calls return the successive values of a sequence \<open>random :: nat \<Rightarrow> real\<close>.
\<close>

record sim_t =
  particles :: "particles_t option"
  simulationObject :: "vec3 option"
  simulationParams :: simulationParams_t
  tunnelDimensions :: "tunnel_t option"
  wasmLoaded :: bool
  wasmModule :: bool
  randomCalls :: nat

text \<open>
  \<open>updateVelocitiesJS\<close> (lines 1188-1277): the target velocity of each particle, damped
  into the velocity array with the weights 0.95 and 0.05.
\<close>

definition updateVelocitiesJS ::
  "simulationParams_t \<Rightarrow> vec3 \<Rightarrow> real list \<Rightarrow> real list \<Rightarrow> real list" where
  "updateVelocitiesJS sp objectPos pos vel =
     fold
       (\<lambda>i vel.
          let idx = i * 3;
              x = pos ! idx - fst objectPos;
              y = pos ! (idx + 1) - fst (snd objectPos);
              z = pos ! (idx + 2) - snd (snd objectPos)
          in case targetVelocityJS (objectType sp) (freeStreamVelocity sp) (fluidDensity sp)
                    (x, y, z) of
               (vx, vy, vz) \<Rightarrow>
                 vel[idx := vel ! idx * 0.95 + vx * 0.05,
                     idx + 1 := vel ! (idx + 1) * 0.95 + vy * 0.05,
                     idx + 2 := vel ! (idx + 2) * 0.95 + vz * 0.05])
       [0..<particleCount sp] vel"

text \<open>
  The code that \<open>updateParticles\<close> passes for the object type (lines 1070-1071).
\<close>

definition objectTypeCode :: "string \<Rightarrow> int" where
  "objectTypeCode t = (if t = ''sphere'' then 0 else if t = ''cylinder'' then 1 else 2)"

text \<open>
  The loop of lines 1075-1080: the result of the compiled kernel is copied over the
  velocity array.
\<close>

definition copyVelocityResults :: "nat \<Rightarrow> real list \<Rightarrow> real list \<Rightarrow> real list" where
  "copyVelocityResults count velocityResults vel =
     fold
       (\<lambda>i vel.
          let idx = i * 3
          in vel[idx := velocityResults ! idx,
                 idx + 1 := velocityResults ! (idx + 1),
                 idx + 2 := velocityResults ! (idx + 2)])
       [0..<count] vel"

text \<open>The time step of \<open>updateParticles\<close> (line 1057).\<close>

definition dt :: real where
  "dt = 0.01"

text \<open>
  The body of the loop of lines 1090-1119 for particle \<open>i\<close>, on the position array, the
  velocity array and the count of \<open>Math.random\<close> calls: integrate, then recycle a
  particle that left the tunnel.
\<close>

definition moveParticle ::
  "tunnel_t \<Rightarrow> real \<Rightarrow> (nat \<Rightarrow> real) \<Rightarrow> nat \<Rightarrow> real list \<times> real list \<times> nat
     \<Rightarrow> real list \<times> real list \<times> nat" where
  "moveParticle tunnel U random i st =
     (case st of (pos0, vel, k) \<Rightarrow>
        let idx = i * 3;
            pos1 = pos0[idx := pos0 ! idx + vel ! idx * dt];
            pos2 = pos1[idx + 1 := pos1 ! (idx + 1) + vel ! (idx + 1) * dt];
            pos3 = pos2[idx + 2 := pos2 ! (idx + 2) + vel ! (idx + 2) * dt]
        in if pos3 ! idx > exitX tunnel
              \<or> \<bar>pos3 ! (idx + 1)\<bar> > width tunnel / 2
              \<or> \<bar>pos3 ! (idx + 2)\<bar> > height tunnel / 2
           then
             (let pos4 = pos3[idx := entryX tunnel];
                  vel' = vel[idx := U, idx + 1 := 0, idx + 2 := 0]
              in if \<bar>pos4 ! (idx + 1)\<bar> > width tunnel / 2
                    \<or> \<bar>pos4 ! (idx + 2)\<bar> > height tunnel / 2
                 then (pos4[idx + 1 := (random k - 0.5) * width tunnel * 0.8,
                            idx + 2 := (random (k + 1) - 0.5) * height tunnel * 0.8],
                       vel', k + 2)
                 else (pos4, vel', k))
           else (pos3, vel, k))"

definition moveParticles ::
  "tunnel_t \<Rightarrow> real \<Rightarrow> (nat \<Rightarrow> real) \<Rightarrow> nat \<Rightarrow> real list \<times> real list \<times> nat
     \<Rightarrow> real list \<times> real list \<times> nat" where
  "moveParticles tunnel U random count st = fold (moveParticle tunnel U random) [0..<count] st"

text \<open>
  \<open>window.updateVelocities\<close>, when it is a function: called with the nine arguments of
  lines 1062-1073, it returns the velocity array or throws.
\<close>

type_synonym wasm_fn =
  "real list \<Rightarrow> nat \<Rightarrow> real \<Rightarrow> real \<Rightarrow> real \<Rightarrow> real \<Rightarrow> real \<Rightarrow> int \<Rightarrow> real
     \<Rightarrow> js_exception + real list"

text \<open>
  The velocity update of \<open>updateParticles\<close>, lines 1060-1087: the compiled kernel when it
  is loaded and \<open>window.updateVelocities\<close> is a function, the scalar kernel otherwise and
  in the \<open>catch\<close>.
\<close>

definition newVelocities :: "wasm_fn option \<Rightarrow> sim_t \<Rightarrow> vec3 \<Rightarrow> particles_t \<Rightarrow> real list" where
  "newVelocities windowUpdateVelocities s objectPos ps =
     (let sp = simulationParams s in
      case (if wasmLoaded s \<and> wasmModule s then windowUpdateVelocities else None) of
        Some f \<Rightarrow>
          (case f (positions ps) (particleCount sp) (freeStreamVelocity sp) (fluidDensity sp)
                  (fst objectPos) (fst (snd objectPos)) (snd (snd objectPos))
                  (objectTypeCode (objectType sp)) 1.0 of
             Inr velocityResults \<Rightarrow>
               copyVelocityResults (particleCount sp) velocityResults (velocities ps)
           | Inl e \<Rightarrow> updateVelocitiesJS sp objectPos (positions ps) (velocities ps))
      | None \<Rightarrow> updateVelocitiesJS sp objectPos (positions ps) (velocities ps))"

text \<open>
  The tunnel of a tick (lines 1049-1054): \<open>window.tunnelDimensions\<close>, or the default.
\<close>

definition currentTunnel :: "sim_t \<Rightarrow> tunnel_t" where
  "currentTunnel s = (case tunnelDimensions s of Some t \<Rightarrow> t | None \<Rightarrow> defaultTunnel)"

text \<open>
  \<open>updateParticles\<close> (lines 1044-1122), one tick. It returns at once when there are no
  particles or no object.
\<close>

definition updateParticles :: "wasm_fn option \<Rightarrow> (nat \<Rightarrow> real) \<Rightarrow> sim_t \<Rightarrow> sim_t" where
  "updateParticles windowUpdateVelocities random s =
     (case (particles s, simulationObject s) of
        (Some ps, Some objectPos) \<Rightarrow>
          (let tunnel = currentTunnel s;
               vel = newVelocities windowUpdateVelocities s objectPos ps
           in case moveParticles tunnel (freeStreamVelocity (simulationParams s)) random
                     (particleCount (simulationParams s)) (positions ps, vel, randomCalls s) of
                (pos', vel', k') \<Rightarrow>
                  s\<lparr>particles := Some (ps\<lparr>positions := pos', velocities := vel',
                                           needsUpdate := True\<rparr>),
                    randomCalls := k'\<rparr>)
      | _ \<Rightarrow> s)"

text \<open>
  \<open>updateVelocitiesJS\<close> of the earlier copy of \<open>Main.js\<close> (lines 483-555), with the
  same damping.
\<close>

definition updateVelocitiesJS_earlier ::
  "simulationParams_t \<Rightarrow> vec3 \<Rightarrow> real list \<Rightarrow> real list \<Rightarrow> real list" where
  "updateVelocitiesJS_earlier sp objectPos pos vel =
     fold
       (\<lambda>i vel.
          let idx = i * 3;
              x = pos ! idx - fst objectPos;
              y = pos ! (idx + 1) - fst (snd objectPos);
              z = pos ! (idx + 2) - snd (snd objectPos)
          in case targetVelocityJS_earlier (objectType sp) (freeStreamVelocity sp) (x, y, z) of
               (vx, vy, vz) \<Rightarrow>
                 vel[idx := vel ! idx * 0.95 + vx * 0.05,
                     idx + 1 := vel ! (idx + 1) * 0.95 + vy * 0.05,
                     idx + 2 := vel ! (idx + 2) * 0.95 + vz * 0.05])
       [0..<particleCount sp] vel"

section \<open>Notions of the specification\<close>

text \<open>The three slots of particle \<open>i\<close> in a flat array of reals.\<close>

definition particleAt :: "real list \<Rightarrow> nat \<Rightarrow> vec3" where
  "particleAt xs i = (xs ! (i * 3), xs ! (i * 3 + 1), xs ! (i * 3 + 2))"

section \<open>Example states\<close>

text \<open>
  One particle at \<open>(2, 0, 0)\<close> with velocity \<open>(1, 0, 0)\<close>, a sphere at the origin, free
  stream 1, the tunnel of \<open>initializeParticles\<close>, the compiled kernel loaded.
\<close>

definition exampleState :: sim_t where
  "exampleState =
     \<lparr>particles = Some \<lparr>positions = [2, 0, 0], velocities = [1, 0, 0], needsUpdate = False\<rparr>,
      simulationObject = Some (0, 0, 0),
      simulationParams = \<lparr>freeStreamVelocity = 1, particleCount = 1, fluidDensity = 1,
                           objectType = ''sphere''\<rparr>,
      tunnelDimensions = Some defaultTunnel,
      wasmLoaded = True, wasmModule = True, randomCalls = 0\<rparr>"

text \<open>A \<open>window.updateVelocities\<close> that throws, and a \<open>Math.random\<close> that returns 0.\<close>

definition throwingKernel :: wasm_fn where
  "throwingKernel positionsJS count U rho objectX objectY objectZ kind objectRadius = Inl Thrown"

definition zeroRandom :: "nat \<Rightarrow> real" where
  "zeroRandom k = 0"

section \<open>The loop that integrates and recycles, on the typed arrays\<close>

text \<open>
  \<open>positions\<close> and \<open>velocities\<close> are \<open>Float32Array\<close>s (lines 923 and 966 of the later
  copy): each store of the loop of lines 1090-1119 rounds to single precision, and each
  read gives the stored single as a double. The time step, the constants 0.5 and 0.8 and
  the fields of the tunnel are doubles; the free-stream speed \<open>U\<close> is any value of a
  JavaScript number.
\<close>

definition dt64 :: fp where
  "dt64 = float64 0.01"

text \<open>\<open>tunnel.width/2\<close> and \<open>tunnel.height/2\<close> of the exit tests.\<close>

definition halfWidth :: "tunnel_t \<Rightarrow> fp" where
  "halfWidth tunnel = fdiv (float64 (width tunnel)) (Fin 2)"

definition halfHeight :: "tunnel_t \<Rightarrow> fp" where
  "halfHeight tunnel = fdiv (float64 (height tunnel)) (Fin 2)"

text \<open>
  The coordinate stored for a particle that left sideways (lines 1110-1111):
  \<open>(Math.random() - 0.5) * w * 0.8\<close> for the draw \<open>u\<close>, as the array keeps it.
\<close>

definition reseed :: "real \<Rightarrow> real \<Rightarrow> fp" where
  "reseed u w = fround (fmul (fmul (fsub (Fin u) (Fin 0.5)) (float64 w)) (float64 0.8))"

text \<open>
  The body of the loop for particle \<open>i\<close>, on the position array, the velocity array and
  the count of \<open>Math.random\<close> calls. \<open>moveParticle\<close> above is the same body on the
  reals.
\<close>

definition moveParticleF ::
  "tunnel_t \<Rightarrow> fp \<Rightarrow> (nat \<Rightarrow> real) \<Rightarrow> nat \<Rightarrow> fp list \<times> fp list \<times> nat
     \<Rightarrow> fp list \<times> fp list \<times> nat" where
  "moveParticleF tunnel U random i st =
     (case st of (pos0, vel, k) \<Rightarrow>
        let idx = i * 3;
            pos1 = pos0[idx := fround (fadd (pos0 ! idx) (fmul (vel ! idx) dt64))];
            pos2 = pos1[idx + 1 := fround (fadd (pos1 ! (idx + 1)) (fmul (vel ! (idx + 1)) dt64))];
            pos3 = pos2[idx + 2 := fround (fadd (pos2 ! (idx + 2)) (fmul (vel ! (idx + 2)) dt64))]
        in if fgt (pos3 ! idx) (float64 (exitX tunnel))
              \<or> fgt (fabs (pos3 ! (idx + 1))) (halfWidth tunnel)
              \<or> fgt (fabs (pos3 ! (idx + 2))) (halfHeight tunnel)
           then
             (let pos4 = pos3[idx := fround (float64 (entryX tunnel))];
                  vel' = vel[idx := fround U, idx + 1 := fround (Fin 0), idx + 2 := fround (Fin 0)]
              in if fgt (fabs (pos4 ! (idx + 1))) (halfWidth tunnel)
                    \<or> fgt (fabs (pos4 ! (idx + 2))) (halfHeight tunnel)
                 then (pos4[idx + 1 := reseed (random k) (width tunnel),
                            idx + 2 := reseed (random (k + 1)) (height tunnel)],
                       vel', k + 2)
                 else (pos4, vel', k))
           else (pos3, vel, k))"

definition moveParticlesF ::
  "tunnel_t \<Rightarrow> fp \<Rightarrow> (nat \<Rightarrow> real) \<Rightarrow> nat \<Rightarrow> fp list \<times> fp list \<times> nat
     \<Rightarrow> fp list \<times> fp list \<times> nat" where
  "moveParticlesF tunnel U random count st = fold (moveParticleF tunnel U random) [0..<count] st"

text \<open>
  For stating what the loop does to each particle: the position of particle \<open>i\<close> that
  the array holds after the integration step of lines 1094-1096, the exit test of lines
  1099-1101 and the lateral test of lines 1107-1108 on such a position, and what the loop
  body makes of one particle, which is kept as it is after integration (position \<open>p\<close>,
  velocity \<open>v\<close>) or recycled with the random draws \<open>k\<close> and \<open>k + 1\<close>.
\<close>

definition integratedF :: "fp list \<Rightarrow> fp list \<Rightarrow> nat \<Rightarrow> fp \<times> fp \<times> fp" where
  "integratedF pos vel i =
     (fround (fadd (pos ! (i * 3)) (fmul (vel ! (i * 3)) dt64)),
      fround (fadd (pos ! (i * 3 + 1)) (fmul (vel ! (i * 3 + 1)) dt64)),
      fround (fadd (pos ! (i * 3 + 2)) (fmul (vel ! (i * 3 + 2)) dt64)))"

definition exitsF :: "tunnel_t \<Rightarrow> fp \<times> fp \<times> fp \<Rightarrow> bool" where
  "exitsF tn p =
     (case p of (px, py, pz) \<Rightarrow>
        fgt px (float64 (exitX tn)) \<or> fgt (fabs py) (halfWidth tn) \<or> fgt (fabs pz) (halfHeight tn))"

definition sidewaysF :: "tunnel_t \<Rightarrow> fp \<times> fp \<times> fp \<Rightarrow> bool" where
  "sidewaysF tn p =
     (case p of (px, py, pz) \<Rightarrow> fgt (fabs py) (halfWidth tn) \<or> fgt (fabs pz) (halfHeight tn))"

definition movedF ::
  "tunnel_t \<Rightarrow> fp \<Rightarrow> (nat \<Rightarrow> real) \<Rightarrow> fp \<times> fp \<times> fp \<Rightarrow> fp \<times> fp \<times> fp \<Rightarrow> nat
     \<Rightarrow> (fp \<times> fp \<times> fp) \<times> (fp \<times> fp \<times> fp)" where
  "movedF tn U random p v k =
     (if exitsF tn p then
        ((fround (float64 (entryX tn)),
          if sidewaysF tn p then reseed (random k) (width tn) else fst (snd p),
          if sidewaysF tn p then reseed (random (k + 1)) (height tn) else snd (snd p)),
         (fround U, fround (Fin 0), fround (Fin 0)))
      else (p, v))"

section \<open>Concrete scenarios\<close>

text \<open>
  C5. Sphere, radius 1, free-stream speed 1, density 1, relative position \<open>(2, 0, 0)\<close>:
  the distance is 2, the factor is \<open>(1/2)\<^sup>3 = 0.125\<close> and the velocity is exactly
  \<open>(0.875, 0, 0)\<close>, in the Go kernel and in the scalar kernel.
\<close>

theorem sphere_scenario:
  "sqrt (2 * 2 + 0 * 0 + 0 * 0) > (1::real)
   \<and> factor_SPHERE 1 2 = 0.125
   \<and> particleVelocity SPHERE 1 1 1 (2, 0, 0) = (0.875, 0, 0)
   \<and> factorSphere radius 2 = 0.125
   \<and> targetVelocityJS ''sphere'' 1 1 (2, 0, 0) = (0.875, 0, 0)"
  by (simp add: particleVelocity_def targetVelocityJS_def factor_SPHERE_def factorSphere_def
        radius_def SPHERE_def)

text \<open>
  C6. Cylinder, radius 1, free-stream speed 1, density 1, relative position \<open>(0, 2, 0)\<close>:
  \<open>rxy = 2\<close>, the factor is \<open>(1/2)\<^sup>2 = 0.25\<close>, \<open>vx = 1.25\<close>, \<open>vy = 0\<close>, the
  Bernoulli pressure is \<open>-0.28125\<close>, the z term \<open>z * pressure * 0.01\<close> is \<open>0\<close> at
  \<open>z = 0\<close>, and the velocity is exactly \<open>(1.25, 0, 0)\<close>, in both kernels.
\<close>

theorem cylinder_scenario:
  "rxy_CYLINDER 0 2 = 2
   \<and> factor_CYLINDER 1 2 = 0.25
   \<and> vx_CYLINDER 1 0.25 2 0 = 1.25
   \<and> vy_CYLINDER 1 0.25 2 0 2 = 0
   \<and> pressure_CYLINDER 1 1 1.25 0 = - 0.28125
   \<and> 0 * pressure_CYLINDER 1 1 1.25 0 * 0.01 = 0
   \<and> particleVelocity CYLINDER 1 1 1 (0, 2, 0) = (1.25, 0, 0)
   \<and> rxyC 0 2 = 2
   \<and> factorCyl radius 2 = 0.25
   \<and> vxCyl 1 0.25 2 0 = 1.25
   \<and> vyCyl 1 0.25 2 0 2 = 0
   \<and> pressureCyl 1 1 1.25 0 = - 0.28125
   \<and> targetVelocityJS ''cylinder'' 1 1 (0, 2, 0) = (1.25, 0, 0)"
  by (simp add: particleVelocity_def targetVelocityJS_def rxy_CYLINDER_def factor_CYLINDER_def
        vx_CYLINDER_def vy_CYLINDER_def pressure_CYLINDER_def rxyC_def factorCyl_def vxCyl_def
        vyCyl_def pressureCyl_def radius_def SPHERE_def CYLINDER_def power2_eq_square)

section \<open>Inside the object\<close>

text \<open>
  In the Go kernel and in the scalar kernel of the later copy of \<open>Main.js\<close>, a relative
  position at distance at most the radius has velocity zero, whatever the object type.
\<close>

lemma particleVelocity_inside:
  "sqrt (x * x + y * y + z * z) \<le> R \<Longrightarrow> particleVelocity kind R U rho (x, y, z) = (0, 0, 0)"
  by (simp add: particleVelocity_def)

lemma targetVelocityJS_inside:
  "sqrt (x * x + y * y + z * z) \<le> radius \<Longrightarrow> targetVelocityJS ot U rho (x, y, z) = (0, 0, 0)"
  by (simp add: targetVelocityJS_def)

text \<open>
  C2. The scalar kernel of the earlier copy of \<open>Main.js\<close> does not do so: its outer test
  has no \<open>else\<close>, and at the centre of a sphere, with free-stream speed 1, its target
  velocity is the free stream \<open>(1, 0, 0)\<close>; a particle at rest there is given the
  velocity \<open>(0.05, 0, 0)\<close>.
\<close>

theorem earlier_kernel_inside_object:
  "sqrt (0 * 0 + 0 * 0 + 0 * 0) \<le> radius
   \<and> targetVelocityJS_earlier ''sphere'' 1 (0, 0, 0) = (1, 0, 0)
   \<and> updateVelocitiesJS_earlier
        \<lparr>freeStreamVelocity = 1, particleCount = 1, fluidDensity = 1, objectType = ''sphere''\<rparr>
        (0, 0, 0) [0, 0, 0] [0, 0, 0] = [0.05, 0, 0]"
  by (simp add: targetVelocityJS_earlier_def updateVelocitiesJS_earlier_def radius_def)

section \<open>The loops over the particle arrays\<close>

text \<open>
  A loop that, at step \<open>i\<close>, rewrites the three slots of particle \<open>i\<close> from their
  old contents leaves every particle \<open>i < n\<close> with \<open>G i\<close> of its initial slots after
  \<open>n\<close> steps, and the rest of the array as it was.
\<close>

lemma particleAt_cong:
  "\<forall>j. i * 3 \<le> j \<and> j < i * 3 + 3 \<longrightarrow> xs ! j = ys ! j \<Longrightarrow> particleAt xs i = particleAt ys i"
  by (simp add: particleAt_def)

lemma fold_particles:
  assumes len: "\<And>i r. length (F i r) = length r"
    and other: "\<And>i r j. j < i * 3 \<or> i * 3 + 3 \<le> j \<Longrightarrow> F i r ! j = r ! j"
    and here: "\<And>i r. i * 3 + 2 < length r \<Longrightarrow> particleAt (F i r) i = G i (particleAt r i)"
  shows "n * 3 \<le> length r0 \<Longrightarrow>
     length (fold F [0..<n] r0) = length r0 \<and>
     (\<forall>j. n * 3 \<le> j \<longrightarrow> fold F [0..<n] r0 ! j = r0 ! j) \<and>
     (\<forall>i<n. particleAt (fold F [0..<n] r0) i = G i (particleAt r0 i))"
proof (induction n)
  case 0
  then show ?case by simp
next
  case (Suc n)
  define r1 where "r1 = fold F [0..<n] r0"
  from Suc have IH: "length r1 = length r0" "\<And>j. n * 3 \<le> j \<Longrightarrow> r1 ! j = r0 ! j"
    "\<And>i. i < n \<Longrightarrow> particleAt r1 i = G i (particleAt r0 i)"
    by (simp_all add: r1_def)
  have step: "fold F [0..<Suc n] r0 = F n r1" by (simp add: r1_def)
  have A: "length (F n r1) = length r0" using len IH(1) by simp
  have B: "\<forall>j. Suc n * 3 \<le> j \<longrightarrow> F n r1 ! j = r0 ! j"
    using other [of _ n r1] IH(2) by simp
  have C: "\<forall>i<Suc n. particleAt (F n r1) i = G i (particleAt r0 i)"
  proof (intro allI impI)
    fix i assume i: "i < Suc n"
    show "particleAt (F n r1) i = G i (particleAt r0 i)"
    proof (cases "i < n")
      case True
      then have "particleAt (F n r1) i = particleAt r1 i"
        by (intro particleAt_cong) (auto intro: other)
      with IH(3) [OF True] show ?thesis by simp
    next
      case False
      with i have [simp]: "i = n" by simp
      have "n * 3 + 2 < length r1" using Suc.prems IH(1) by simp
      then have "particleAt (F n r1) n = G n (particleAt r1 n)" by (rule here)
      moreover have "particleAt r1 n = particleAt r0 n"
        by (rule particleAt_cong) (use IH(2) in auto)
      ultimately show ?thesis by simp
    qed
  qed
  from A B C show ?case unfolding step by blast
qed

text \<open>
  Particle by particle: the result array of the Go kernel, the damping of the scalar
  kernel and the copy of the compiled result.
\<close>

lemma updateVelocities_particle:
  assumes run: "updateVelocities positionsJS n U rho ox oy oz kind R = Inr vs" and i: "i < n"
  shows "particleAt vs i =
     particleVelocity kind R U rho
       (positionsJS ! (i * 3) - ox, positionsJS ! (i * 3 + 1) - oy, positionsJS ! (i * 3 + 2) - oz)"
proof -
  define v where "v i = particleVelocity kind R U rho
       (positionsJS ! (i * 3) - ox, positionsJS ! (i * 3 + 1) - oy, positionsJS ! (i * 3 + 2) - oz)"
    for i
  define F where "F i r =
     (case v i of (vx, vy, vz) \<Rightarrow> r[i * 3 := vx, i * 3 + 1 := vy, i * 3 + 2 := vz])"
    for i and r :: "real list"
  define G where "G i w = v i" for i and w :: vec3
  from run have vs: "vs = fold F [0..<n] (replicate (n * 3) 0)"
    unfolding updateVelocities_def F_def [abs_def] v_def
    by (simp add: Let_def split: if_splits)
  have "length (F i r) = length r" for i r
    by (simp add: F_def split: prod.splits)
  moreover have "j < i * 3 \<or> i * 3 + 3 \<le> j \<Longrightarrow> F i r ! j = r ! j" for i r j
    by (auto simp: F_def split: prod.splits)
  moreover have "i * 3 + 2 < length r \<Longrightarrow> particleAt (F i r) i = G i (particleAt r i)" for i r
    by (simp add: F_def G_def particleAt_def split: prod.splits)
  moreover have "n * 3 \<le> length (replicate (n * 3) (0::real))" by simp
  ultimately have "particleAt (fold F [0..<n] (replicate (n * 3) 0)) i
      = G i (particleAt (replicate (n * 3) 0) i)"
    using fold_particles [of F G n "replicate (n * 3) 0"] i by blast
  then show ?thesis by (simp add: vs G_def v_def)
qed

lemma updateVelocitiesJS_particle:
  assumes n: "particleCount sp * 3 \<le> length vel" and i: "i < particleCount sp"
  shows "particleAt (updateVelocitiesJS sp objectPos pos vel) i =
     (case targetVelocityJS (objectType sp) (freeStreamVelocity sp) (fluidDensity sp)
             (pos ! (i * 3) - fst objectPos, pos ! (i * 3 + 1) - fst (snd objectPos),
              pos ! (i * 3 + 2) - snd (snd objectPos)) of
        (vx, vy, vz) \<Rightarrow>
          (vel ! (i * 3) * 0.95 + vx * 0.05, vel ! (i * 3 + 1) * 0.95 + vy * 0.05,
           vel ! (i * 3 + 2) * 0.95 + vz * 0.05))"
proof -
  define target where "target i =
     targetVelocityJS (objectType sp) (freeStreamVelocity sp) (fluidDensity sp)
       (pos ! (i * 3) - fst objectPos, pos ! (i * 3 + 1) - fst (snd objectPos),
        pos ! (i * 3 + 2) - snd (snd objectPos))" for i
  define F where "F i r =
     (case target i of (vx, vy, vz) \<Rightarrow>
        r[i * 3 := r ! (i * 3) * 0.95 + vx * 0.05,
          i * 3 + 1 := r ! (i * 3 + 1) * 0.95 + vy * 0.05,
          i * 3 + 2 := r ! (i * 3 + 2) * 0.95 + vz * 0.05])" for i and r :: "real list"
  define G where "G i v =
     (case target i of (vx, vy, vz) \<Rightarrow>
        (fst v * 0.95 + vx * 0.05, fst (snd v) * 0.95 + vy * 0.05,
         snd (snd v) * 0.95 + vz * 0.05))" for i and v :: vec3
  have loop: "updateVelocitiesJS sp objectPos pos vel = fold F [0..<particleCount sp] vel"
    unfolding updateVelocitiesJS_def F_def [abs_def] target_def by (simp add: Let_def)
  have "length (F i r) = length r" for i r
    by (simp add: F_def split: prod.splits)
  moreover have "j < i * 3 \<or> i * 3 + 3 \<le> j \<Longrightarrow> F i r ! j = r ! j" for i r j
    by (auto simp: F_def split: prod.splits)
  moreover have "i * 3 + 2 < length r \<Longrightarrow> particleAt (F i r) i = G i (particleAt r i)" for i r
    by (simp add: F_def G_def particleAt_def split: prod.splits)
  ultimately have "particleAt (fold F [0..<particleCount sp] vel) i = G i (particleAt vel i)"
    using fold_particles [of F G "particleCount sp" vel] n i by blast
  then show ?thesis by (simp add: loop G_def target_def particleAt_def)
qed

lemma copyVelocityResults_particle:
  assumes n: "n * 3 \<le> length vel" and i: "i < n"
  shows "particleAt (copyVelocityResults n velocityResults vel) i = particleAt velocityResults i"
proof -
  define F where "F i r =
     r[i * 3 := velocityResults ! (i * 3), i * 3 + 1 := velocityResults ! (i * 3 + 1),
       i * 3 + 2 := velocityResults ! (i * 3 + 2)]" for i and r :: "real list"
  define G where "G i v = particleAt velocityResults i" for i and v :: vec3
  have loop: "copyVelocityResults n velocityResults vel = fold F [0..<n] vel"
    unfolding copyVelocityResults_def F_def [abs_def] by (simp add: Let_def)
  have "length (F i r) = length r" for i r
    by (simp add: F_def)
  moreover have "j < i * 3 \<or> i * 3 + 3 \<le> j \<Longrightarrow> F i r ! j = r ! j" for i r j
    by (auto simp: F_def)
  moreover have "i * 3 + 2 < length r \<Longrightarrow> particleAt (F i r) i = G i (particleAt r i)" for i r
    by (simp add: F_def G_def particleAt_def)
  ultimately have "particleAt (fold F [0..<n] vel) i = G i (particleAt vel i)"
    using fold_particles [of F G n vel] n i by blast
  then show ?thesis by (simp add: loop G_def)
qed

text \<open>
  The velocity update keeps the length of the velocity array.
\<close>

lemma fold_update_length:
  "(\<And>i v. length (f i v) = length v) \<Longrightarrow> length (fold f is v) = length v"
  by (induction "is" arbitrary: v) simp_all

lemma updateVelocitiesJS_length:
  "length (updateVelocitiesJS sp objectPos pos vel) = length vel"
  unfolding updateVelocitiesJS_def
  by (rule fold_update_length) (simp add: Let_def split: prod.splits)

lemma copyVelocityResults_length:
  "length (copyVelocityResults n vr vel) = length vel"
  unfolding copyVelocityResults_def
  by (rule fold_update_length) (simp add: Let_def)

lemma newVelocities_length:
  "length (newVelocities w s objectPos ps) = length (velocities ps)"
  by (simp add: newVelocities_def Let_def updateVelocitiesJS_length copyVelocityResults_length
      split: option.splits sum.splits)

section \<open>Smoothing\<close>

text \<open>
  The scalar path damps: each velocity becomes \<open>0.95\<close> of the old one plus \<open>0.05\<close>
  of the target. The compiled path does not: it overwrites each velocity with the result
  of the kernel.
\<close>

lemma newVelocities_compiled_particle:
  assumes "wasmLoaded s" "wasmModule s"
    and "f (positions ps) (particleCount (simulationParams s))
           (freeStreamVelocity (simulationParams s)) (fluidDensity (simulationParams s))
           (fst objectPos) (fst (snd objectPos)) (snd (snd objectPos))
           (objectTypeCode (objectType (simulationParams s))) 1 = Inr velocityResults"
    and "particleCount (simulationParams s) * 3 \<le> length (velocities ps)"
    and "i < particleCount (simulationParams s)"
  shows "particleAt (newVelocities (Some f) s objectPos ps) i = particleAt velocityResults i"
  using assms by (simp add: newVelocities_def Let_def copyVelocityResults_particle)

lemma newVelocities_scalar_particle:
  assumes "particleCount (simulationParams s) * 3 \<le> length (velocities ps)"
    and "i < particleCount (simulationParams s)"
  shows "particleAt (newVelocities None s objectPos ps) i =
     (case targetVelocityJS (objectType (simulationParams s))
             (freeStreamVelocity (simulationParams s)) (fluidDensity (simulationParams s))
             (positions ps ! (i * 3) - fst objectPos,
              positions ps ! (i * 3 + 1) - fst (snd objectPos),
              positions ps ! (i * 3 + 2) - snd (snd objectPos)) of
        (vx, vy, vz) \<Rightarrow>
          (velocities ps ! (i * 3) * 0.95 + vx * 0.05,
           velocities ps ! (i * 3 + 1) * 0.95 + vy * 0.05,
           velocities ps ! (i * 3 + 2) * 0.95 + vz * 0.05))"
  using assms by (simp add: newVelocities_def Let_def updateVelocitiesJS_particle)

text \<open>
  C3. One tick from \<open>exampleState\<close> (old velocity \<open>(1, 0, 0)\<close>, target
  \<open>(0.875, 0, 0)\<close>). With the Go kernel as \<open>window.updateVelocities\<close> the new velocity
  is the target \<open>(0.875, 0, 0)\<close> itself, not the smoothed
  \<open>1 * 0.95 + 0.875 * 0.05 = 0.99375\<close> that the claim states and that the scalar path
  gives from the same state.
\<close>

theorem compiled_path_not_smoothed:
  "newVelocities (Some updateVelocities) exampleState (0, 0, 0)
       \<lparr>positions = [2, 0, 0], velocities = [1, 0, 0], needsUpdate = False\<rparr>
     = [0.875, 0, 0]
   \<and> particles (updateParticles (Some updateVelocities) zeroRandom exampleState)
       = Some \<lparr>positions = [2.00875, 0, 0], velocities = [0.875, 0, 0], needsUpdate = True\<rparr>
   \<and> 1 * 0.95 + 0.875 * 0.05 = (0.99375 :: real)
   \<and> particles (updateParticles None zeroRandom exampleState)
       = Some \<lparr>positions = [2.0099375, 0, 0], velocities = [0.99375, 0, 0],
               needsUpdate = True\<rparr>"
  by (simp add: updateParticles_def exampleState_def newVelocities_def updateVelocitiesJS_def
      updateVelocities_def copyVelocityResults_def objectTypeCode_def
      particleVelocity_def SPHERE_def factor_SPHERE_def
      targetVelocityJS_def factorSphere_def radius_def moveParticles_def moveParticle_def
      currentTunnel_def defaultTunnel_def dt_def zeroRandom_def Let_def)

section \<open>A failure of the compiled kernel\<close>

text \<open>
  C9. When the compiled kernel is selected and its call throws, the velocities of that
  tick are those of the scalar kernel and the whole tick is the tick of a system without
  compiled kernel; \<open>wasmLoaded\<close> and \<open>wasmModule\<close> are still set afterwards, so the
  next tick calls \<open>window.updateVelocities\<close> again: if that call returns, its result
  is what the next tick copies into the velocities.
\<close>

theorem compiled_failure_falls_back:
  assumes ps: "particles s = Some ps" and obj: "simulationObject s = Some objectPos"
    and loaded: "wasmLoaded s" "wasmModule s"
    and fail: "f (positions ps) (particleCount (simulationParams s))
                 (freeStreamVelocity (simulationParams s)) (fluidDensity (simulationParams s))
                 (fst objectPos) (fst (snd objectPos)) (snd (snd objectPos))
                 (objectTypeCode (objectType (simulationParams s))) 1 = Inl e"
    and next_ps: "particles (updateParticles (Some f) rnd s) = Some ps'"
    and next_ok: "g (positions ps') (particleCount (simulationParams s))
                 (freeStreamVelocity (simulationParams s)) (fluidDensity (simulationParams s))
                 (fst objectPos) (fst (snd objectPos)) (snd (snd objectPos))
                 (objectTypeCode (objectType (simulationParams s))) 1 = Inr velocityResults"
  shows "newVelocities (Some f) s objectPos ps
           = updateVelocitiesJS (simulationParams s) objectPos (positions ps) (velocities ps)
     \<and> updateParticles (Some f) rnd s = updateParticles None rnd s
     \<and> wasmLoaded (updateParticles (Some f) rnd s)
     \<and> wasmModule (updateParticles (Some f) rnd s)
     \<and> newVelocities (Some g) (updateParticles (Some f) rnd s) objectPos ps'
           = copyVelocityResults (particleCount (simulationParams s)) velocityResults
               (velocities ps')"
proof -
  have nv: "newVelocities (Some f) s objectPos ps
           = updateVelocitiesJS (simulationParams s) objectPos (positions ps) (velocities ps)"
    using loaded fail by (simp add: newVelocities_def Let_def)
  have nv0: "newVelocities None s objectPos ps
           = updateVelocitiesJS (simulationParams s) objectPos (positions ps) (velocities ps)"
    by (simp add: newVelocities_def Let_def)
  have same: "updateParticles (Some f) rnd s = updateParticles None rnd s"
    using ps obj nv nv0 by (simp add: updateParticles_def Let_def)
  have keep: "wasmLoaded (updateParticles w rnd s) = wasmLoaded s
      \<and> wasmModule (updateParticles w rnd s) = wasmModule s
      \<and> simulationParams (updateParticles w rnd s) = simulationParams s" for w
    by (simp add: updateParticles_def Let_def split: option.splits prod.splits)
  have "newVelocities (Some g) (updateParticles (Some f) rnd s) objectPos ps'
           = copyVelocityResults (particleCount (simulationParams s)) velocityResults
               (velocities ps')"
    using keep [of "Some f"] loaded next_ok by (simp add: newVelocities_def Let_def)
  with nv same keep [of "Some f"] loaded show ?thesis by simp
qed

theorem compiled_failure_falls_back_witness:
  "particles exampleState
     = Some \<lparr>positions = [2, 0, 0], velocities = [1, 0, 0], needsUpdate = False\<rparr>
   \<and> simulationObject exampleState = Some (0, 0, 0)
   \<and> wasmLoaded exampleState \<and> wasmModule exampleState
   \<and> throwingKernel [2, 0, 0] 1 1 1 0 0 0 0 1 = Inl Thrown
   \<and> particles (updateParticles (Some throwingKernel) zeroRandom exampleState)
       = Some \<lparr>positions = [2.0099375, 0, 0], velocities = [0.99375, 0, 0],
               needsUpdate = True\<rparr>
   \<and> updateParticles (Some throwingKernel) zeroRandom exampleState
       = updateParticles None zeroRandom exampleState
   \<and> wasmLoaded (updateParticles (Some throwingKernel) zeroRandom exampleState)
   \<and> wasmModule (updateParticles (Some throwingKernel) zeroRandom exampleState)
   \<and> newVelocities (Some (\<lambda>p n U rho ox oy oz kind R. Inr [7, 8, 9]))
        (updateParticles (Some throwingKernel) zeroRandom exampleState) (0, 0, 0)
        \<lparr>positions = [2.0099375, 0, 0], velocities = [0.99375, 0, 0], needsUpdate = True\<rparr>
       = [7, 8, 9]"
proof -
  let ?ps = "\<lparr>positions = [2, 0, 0], velocities = [1, 0, 0], needsUpdate = False\<rparr>"
  let ?ps' = "\<lparr>positions = [2.0099375, 0, 0], velocities = [0.99375, 0, 0],
               needsUpdate = True\<rparr>"
  let ?g = "\<lambda>(p :: real list) (n :: nat) (U :: real) (rho :: real) (ox :: real) (oy :: real)
              (oz :: real) (kind :: int) (R :: real). Inr [7, 8, 9 :: real] :: js_exception + real list"
  have ps: "particles exampleState = Some ?ps"
    and obj: "simulationObject exampleState = Some (0, 0, 0)"
    and loaded: "wasmLoaded exampleState" "wasmModule exampleState"
    by (simp_all add: exampleState_def)
  have fail: "throwingKernel (positions ?ps) (particleCount (simulationParams exampleState))
                 (freeStreamVelocity (simulationParams exampleState))
                 (fluidDensity (simulationParams exampleState))
                 (fst (0, 0, 0)) (fst (snd (0, 0, 0))) (snd (snd (0, 0, 0)))
                 (objectTypeCode (objectType (simulationParams exampleState))) 1 = Inl Thrown"
    by (simp add: throwingKernel_def)
  have fail': "throwingKernel [2, 0, 0] 1 1 1 0 0 0 0 1 = Inl Thrown"
    by (simp add: throwingKernel_def)
  have next_ps: "particles (updateParticles (Some throwingKernel) zeroRandom exampleState)
       = Some ?ps'"
    by (simp add: updateParticles_def exampleState_def newVelocities_def updateVelocitiesJS_def
        throwingKernel_def
        targetVelocityJS_def factorSphere_def radius_def moveParticles_def moveParticle_def
        currentTunnel_def defaultTunnel_def dt_def zeroRandom_def Let_def)
  have next_ok: "?g (positions ?ps') (particleCount (simulationParams exampleState))
                 (freeStreamVelocity (simulationParams exampleState))
                 (fluidDensity (simulationParams exampleState))
                 (fst (0, 0, 0)) (fst (snd (0, 0, 0))) (snd (snd (0, 0, 0)))
                 (objectTypeCode (objectType (simulationParams exampleState))) 1 = Inr [7, 8, 9]"
    by simp
  have copy: "copyVelocityResults (particleCount (simulationParams exampleState)) [7, 8, 9]
      (velocities ?ps') = [7, 8, 9]"
    by (simp add: copyVelocityResults_def exampleState_def)
  note r = compiled_failure_falls_back [OF ps obj loaded fail next_ps next_ok]
  from r have "newVelocities (Some ?g)
        (updateParticles (Some throwingKernel) zeroRandom exampleState) (0, 0, 0) ?ps'
       = copyVelocityResults (particleCount (simulationParams exampleState)) [7, 8, 9]
           (velocities ?ps')"
    by blast
  then have "newVelocities (Some ?g)
        (updateParticles (Some throwingKernel) zeroRandom exampleState) (0, 0, 0) ?ps'
       = [7, 8, 9]"
    using copy by (rule trans)
  with r have "updateParticles (Some throwingKernel) zeroRandom exampleState
       = updateParticles None zeroRandom exampleState
   \<and> wasmLoaded (updateParticles (Some throwingKernel) zeroRandom exampleState)
   \<and> wasmModule (updateParticles (Some throwingKernel) zeroRandom exampleState)
   \<and> newVelocities (Some ?g)
        (updateParticles (Some throwingKernel) zeroRandom exampleState) (0, 0, 0) ?ps'
       = [7, 8, 9]"
    by blast
  with ps obj loaded fail' next_ps show ?thesis by blast
qed

section \<open>Rounding\<close>

text \<open>
  Rounding to the nearest integer, ties to even, lies between the floor and the ceiling,
  is monotone and odd, and keeps the integers.
\<close>

lemma round_even_of_int [simp]: "round_even (of_int n) = n"
  by (simp add: round_even_def)

lemma round_even_bounds: "\<lfloor>t\<rfloor> \<le> round_even t \<and> round_even t \<le> \<lfloor>t\<rfloor> + 1"
  by (simp add: round_even_def Let_def)

lemma round_even_mono: "s \<le> t \<Longrightarrow> round_even s \<le> round_even t"
proof -
  assume st: "s \<le> t"
  then have fl: "\<lfloor>s\<rfloor> \<le> \<lfloor>t\<rfloor>" by (rule floor_mono)
  show ?thesis
  proof (cases "\<lfloor>s\<rfloor> = \<lfloor>t\<rfloor>")
    case True
    with st have "s - of_int \<lfloor>s\<rfloor> \<le> t - of_int \<lfloor>t\<rfloor>" by simp
    with True show ?thesis by (auto simp: round_even_def Let_def)
  next
    case False
    with fl have "\<lfloor>s\<rfloor> + 1 \<le> \<lfloor>t\<rfloor>" by simp
    with round_even_bounds [of s] round_even_bounds [of t] show ?thesis by linarith
  qed
qed

lemma round_even_uminus: "round_even (- t) = - round_even t"
proof (cases "t \<in> \<int>")
  case True
  then obtain n where "t = of_int n" by (auto elim: Ints_cases)
  then have "- t = of_int (- n)" by simp
  then show ?thesis unfolding \<open>t = of_int n\<close> by (simp only: round_even_of_int)
next
  case False
  then have ne: "t \<noteq> of_int \<lfloor>t\<rfloor>" by (metis Ints_of_int)
  have lt: "of_int \<lfloor>t\<rfloor> < t"
    by (rule order_neq_le_trans [OF ne [symmetric] of_int_floor_le])
  have ub: "t < of_int \<lfloor>t\<rfloor> + 1" by linarith
  have f: "\<lfloor>- t\<rfloor> = - \<lfloor>t\<rfloor> - 1"
  proof (rule floor_unique)
    show "of_int (- \<lfloor>t\<rfloor> - 1) \<le> - t"
      unfolding of_int_diff of_int_minus of_int_1 using ub by linarith
    show "- t < of_int (- \<lfloor>t\<rfloor> - 1) + 1"
      unfolding of_int_diff of_int_minus of_int_1 using lt by linarith
  qed
  from lt have d: "0 < t - of_int \<lfloor>t\<rfloor>" by simp
  show ?thesis
    unfolding round_even_def Let_def f using d by (auto simp: algebra_simps)
qed

text \<open>
  Rounding to \<open>p\<close> significant bits is monotone and odd, and keeps every number that has
  at most \<open>p\<close> significant bits and an exponent of at least \<open>emin\<close>; hence rounding
  twice is rounding once.
\<close>

lemma grid_mono:
  fixes P :: real
  assumes "0 < P" "x \<le> y"
  shows "of_int (round_even (x / P)) * P \<le> of_int (round_even (y / P)) * P"
proof -
  from assms have "x / P \<le> y / P" by (simp add: divide_right_mono)
  then have "round_even (x / P) \<le> round_even (y / P)" by (rule round_even_mono)
  then have "(of_int (round_even (x / P)) :: real) \<le> of_int (round_even (y / P))" by simp
  with assms(1) show ?thesis by (simp add: mult_right_mono)
qed

lemma pow2_diff_int:
  assumes "e \<le> e'"
  shows "(2::real) powr of_int e' / 2 powr of_int e = of_int (2 ^ nat (e' - e))"
proof -
  have "(2::real) powr of_int e' / 2 powr of_int e = 2 powr (of_int e' - of_int e)"
    by (simp add: powr_diff)
  also have "\<dots> = 2 powr of_int (e' - e)" by (simp only: of_int_diff)
  also have "\<dots> = 2 ^ nat (e' - e)"
    using assms powr_real_of_int [of "2::real" "e' - e"] by simp
  finally show ?thesis by simp
qed

lemma grid_fixed:
  assumes "e \<le> e'"
  shows "of_int (round_even (of_int m * 2 powr of_int e' / 2 powr of_int e)) * 2 powr of_int e
           = of_int m * (2::real) powr of_int e'"
proof -
  have "of_int m * (2::real) powr of_int e' / 2 powr of_int e
      = of_int m * ((2::real) powr of_int e' / 2 powr of_int e)" by simp
  also have "\<dots> = of_int (m * 2 ^ nat (e' - e))"
    unfolding pow2_diff_int [OF assms] by simp
  finally have q: "of_int m * (2::real) powr of_int e' / 2 powr of_int e
      = real_of_int (m * 2 ^ nat (e' - e))" .
  have "real_of_int (m * 2 ^ nat (e' - e)) * 2 powr of_int e = of_int m * 2 powr of_int e'"
    unfolding q [symmetric] by simp
  then show ?thesis unfolding q round_even_of_int .
qed

lemma binade:
  assumes "0 < x"
  shows "2 powr of_int \<lfloor>log 2 x\<rfloor> \<le> x" and "x < 2 powr of_int (\<lfloor>log 2 x\<rfloor> + 1)"
  using floor_log_eq_powr_iff [of x 2 "\<lfloor>log 2 x\<rfloor>"] assms by simp_all

lemma floor_log_mono2: "0 < x \<Longrightarrow> x \<le> y \<Longrightarrow> \<lfloor>log 2 x\<rfloor> \<le> \<lfloor>log 2 y\<rfloor>"
  by (intro floor_mono) simp

lemma round_to_nonneg: "0 \<le> x \<Longrightarrow> 0 \<le> round_to p emin x"
proof -
  assume "0 \<le> x"
  then have "0 \<le> x / 2 powr of_int (ulp_exponent p emin x)" by simp
  then have "round_even 0 \<le> round_even (x / 2 powr of_int (ulp_exponent p emin x))"
    by (rule round_even_mono)
  then have "0 \<le> round_even (x / 2 powr of_int (ulp_exponent p emin x))"
    using round_even_of_int [of 0] by simp
  then show ?thesis by (simp add: round_to_def)
qed

lemma round_to_uminus: "round_to p emin (- x) = - round_to p emin x"
  by (simp add: round_to_def ulp_exponent_def round_even_uminus)

lemma round_to_mono_pos:
  assumes p: "1 \<le> p" and x: "0 < x" and xy: "x \<le> y"
  shows "round_to p emin x \<le> round_to p emin y"
proof -
  from x xy have y: "0 < y" by simp
  define kx where "kx = \<lfloor>log 2 x\<rfloor>"
  define ky where "ky = \<lfloor>log 2 y\<rfloor>"
  define ex where "ex = max emin (kx - int p + 1)"
  define ey where "ey = max emin (ky - int p + 1)"
  have k: "kx \<le> ky" unfolding kx_def ky_def using x xy by (rule floor_log_mono2)
  have rx: "round_to p emin x = of_int (round_even (x / 2 powr of_int ex)) * 2 powr of_int ex"
    using x by (simp add: round_to_def ulp_exponent_def ex_def kx_def)
  have ry: "round_to p emin y = of_int (round_even (y / 2 powr of_int ey)) * 2 powr of_int ey"
    using y by (simp add: round_to_def ulp_exponent_def ey_def ky_def)
  have e: "ex \<le> ey" using k by (simp add: ex_def ey_def)
  show ?thesis
  proof (cases "ex = ey")
    case True
    show ?thesis unfolding rx ry True using xy by (intro grid_mono) simp_all
  next
    case False
    with e have lt: "ex < ey" by simp
    then have "kx < ky" by (auto simp: ex_def ey_def max_def split: if_splits)
    then have k1: "kx + 1 \<le> ky" by simp
    define b :: real where "b = 2 powr of_int ky"
    have "x < 2 powr of_int (kx + 1)" unfolding kx_def using x by (rule binade)
    also have "\<dots> \<le> b" unfolding b_def using k1 by simp
    finally have xb: "x \<le> b" by simp
    have "b \<le> y" unfolding b_def ky_def using y by (rule binade)
    have ey_k: "ey \<le> ky" using lt p by (auto simp: ex_def ey_def max_def split: if_splits)
    with lt have ex_k: "ex \<le> ky" by simp
    have b1: "b = of_int 1 * 2 powr of_int ky" by (simp add: b_def)
    have fx: "of_int (round_even (b / 2 powr of_int ex)) * 2 powr of_int ex = b"
      unfolding b1 by (rule grid_fixed [OF ex_k])
    have fy: "of_int (round_even (b / 2 powr of_int ey)) * 2 powr of_int ey = b"
      unfolding b1 by (rule grid_fixed [OF ey_k])
    have "round_to p emin x \<le> b"
      unfolding rx using grid_mono [of "2 powr of_int ex" x b] xb fx by simp
    moreover have "b \<le> round_to p emin y"
      unfolding ry using grid_mono [of "2 powr of_int ey" b y] \<open>b \<le> y\<close> fy by simp
    ultimately show ?thesis by simp
  qed
qed

lemma round_to_mono:
  assumes p: "1 \<le> p" and xy: "x \<le> y"
  shows "round_to p emin x \<le> round_to p emin y"
proof -
  consider "0 < x" | "x \<le> 0" "0 \<le> y" | "y < 0" using xy by linarith
  then show ?thesis
  proof cases
    case 1
    with p xy show ?thesis by (intro round_to_mono_pos)
  next
    case 2
    then have "round_to p emin x \<le> 0"
      using round_to_nonneg [of "- x" p emin] by (simp add: round_to_uminus)
    moreover have "0 \<le> round_to p emin y" using 2 by (intro round_to_nonneg)
    ultimately show ?thesis by simp
  next
    case 3
    then have "0 < - y" "- y \<le> - x" using xy by simp_all
    with p have "round_to p emin (- y) \<le> round_to p emin (- x)" by (intro round_to_mono_pos)
    then show ?thesis by (simp add: round_to_uminus)
  qed
qed

lemma floor_log_binade:
  assumes "2 powr of_int k \<le> \<bar>x\<bar>" "\<bar>x\<bar> < 2 powr of_int (k + 1)"
  shows "\<lfloor>log 2 \<bar>x\<bar>\<rfloor> = k"
proof -
  have "0 < (2::real) powr of_int k" by simp
  with assms(1) have "0 < \<bar>x\<bar>" by linarith
  then show ?thesis using floor_log_eq_powr_iff [of "\<bar>x\<bar>" 2 k] assms by simp
qed

lemma round_to_binade:
  assumes "2 powr of_int k \<le> \<bar>x\<bar>" "\<bar>x\<bar> < 2 powr of_int (k + 1)"
  shows "round_to p emin x =
           of_int (round_even (x / 2 powr of_int (max emin (k - int p + 1))))
             * 2 powr of_int (max emin (k - int p + 1))"
proof -
  have "0 < (2::real) powr of_int k" by simp
  with assms(1) have "x \<noteq> 0" by auto
  then show ?thesis
    by (simp add: round_to_def ulp_exponent_def floor_log_binade [OF assms])
qed

lemma round_to_fixed:
  assumes p: "1 \<le> p" and m: "\<bar>m\<bar> < 2 ^ p" and e: "emin \<le> e"
  shows "round_to p emin (of_int m * 2 powr of_int e) = of_int m * 2 powr of_int e"
proof (cases "m = 0")
  case True
  then show ?thesis by (simp add: round_to_def)
next
  case False
  define x :: real where "x = of_int m * 2 powr of_int e"
  have x0: "x \<noteq> 0" using False by (simp add: x_def)
  have ax: "\<bar>x\<bar> = of_int \<bar>m\<bar> * 2 powr of_int e" by (simp add: x_def abs_mult)
  define k where "k = \<lfloor>log 2 \<bar>x\<bar>\<rfloor>"
  have "2 powr of_int k \<le> \<bar>x\<bar>" unfolding k_def using x0 by (intro binade) simp
  also have "\<bar>x\<bar> < 2 ^ p * 2 powr of_int e"
  proof -
    have "real_of_int \<bar>m\<bar> < real_of_int (2 ^ p)" using m by (simp only: of_int_less_iff)
    then have "real_of_int \<bar>m\<bar> < 2 ^ p" by simp
    then show ?thesis unfolding ax by (intro mult_strict_right_mono) simp_all
  qed
  also have "\<dots> = 2 powr of_int (int p + e)"
    by (simp add: powr_add powr_realpow)
  finally have "k < int p + e" by simp
  then have "max emin (k - int p + 1) \<le> e" using e by simp
  then have "ulp_exponent p emin x \<le> e" by (simp add: ulp_exponent_def k_def)
  from grid_fixed [OF this, of m] x0 show ?thesis
    unfolding x_def [symmetric] by (simp add: round_to_def x_def)
qed

lemma round_to_repr:
  assumes p: "1 \<le> p"
  shows "\<exists>m e. round_to p emin x = of_int m * 2 powr of_int e \<and> \<bar>m\<bar> \<le> 2 ^ p \<and> emin \<le> e"
proof (cases "x = 0")
  case True
  then have "round_to p emin x = of_int 0 * 2 powr of_int emin" by (simp add: round_to_def)
  then show ?thesis by (intro exI [of _ 0] exI [of _ emin]) simp
next
  case False
  define k where "k = \<lfloor>log 2 \<bar>x\<bar>\<rfloor>"
  define e where "e = ulp_exponent p emin x"
  define P :: real where "P = 2 powr of_int e"
  have P: "0 < P" by (simp add: P_def)
  have ek: "k + 1 - int p \<le> e" by (simp add: e_def ulp_exponent_def k_def)
  have "\<bar>x\<bar> < 2 powr of_int (k + 1)" unfolding k_def using False by (intro binade) simp
  also have "\<dots> = 2 powr of_int (k + 1 - int p) * 2 ^ p"
    by (simp add: powr_diff powr_realpow)
  also have "\<dots> \<le> P * 2 ^ p" unfolding P_def using ek by (intro mult_right_mono) simp_all
  finally have "\<bar>x\<bar> / P \<le> 2 ^ p" using P by (simp add: field_simps)
  moreover have "\<bar>x / P\<bar> = \<bar>x\<bar> / P" using P by simp
  ultimately have "\<bar>x / P\<bar> \<le> 2 ^ p" by (simp only:)
  then have "x / P \<le> 2 ^ p" "- (x / P) \<le> 2 ^ p" by (simp_all only: abs_le_iff)
  then have lo: "of_int (- (2 ^ p)) \<le> x / P" and hi: "x / P \<le> of_int (2 ^ p)"
    by simp_all
  from round_even_mono [OF lo] round_even_mono [OF hi]
  have "\<bar>round_even (x / P)\<bar> \<le> 2 ^ p" unfolding round_even_of_int by linarith
  moreover have "round_to p emin x = of_int (round_even (x / P)) * 2 powr of_int e"
    using False by (simp add: round_to_def P_def e_def)
  moreover have "emin \<le> e" by (simp add: e_def ulp_exponent_def)
  ultimately show ?thesis unfolding P_def by blast
qed

lemma round_to_idem:
  assumes p: "1 \<le> p"
  shows "round_to p emin (round_to p emin x) = round_to p emin x"
proof -
  from round_to_repr [OF p] obtain m e where
    r: "round_to p emin x = of_int m * 2 powr of_int e" and m: "\<bar>m\<bar> \<le> 2 ^ p" and e: "emin \<le> e"
    by blast
  show ?thesis
  proof (cases "\<bar>m\<bar> < 2 ^ p")
    case True
    show ?thesis unfolding r by (rule round_to_fixed [OF p True e])
  next
    case False
    with m have am: "\<bar>m\<bar> = 2 ^ p" by simp
    define s :: int where "s = (if 0 \<le> m then 1 else - 1)"
    have ms: "m = s * 2 ^ p" using am by (auto simp: s_def abs_if split: if_splits)
    have "of_int m * (2::real) powr of_int e = of_int s * (2 ^ p * 2 powr of_int e)"
      by (simp add: ms)
    also have "2 ^ p * 2 powr of_int e = (2::real) powr of_int (int p + e)"
      by (simp add: powr_add powr_realpow)
    finally have r': "round_to p emin x = of_int s * 2 powr of_int (int p + e)" using r by simp
    have "(1::int) < 2 ^ p" using p by (intro one_less_power) simp_all
    then have "\<bar>s\<bar> < 2 ^ p" by (simp add: s_def)
    moreover have "emin \<le> int p + e" using e by simp
    ultimately show ?thesis unfolding r' using p by (intro round_to_fixed)
  qed
qed

text \<open>
  The same for the doubles and the singles with their infinities, and the order of the
  values: \<open>\<le>\<close> is transitive, and it is the negation of \<open>>\<close> only away from NaN.
\<close>

lemma max_pos: "0 < max64" "0 < max32"
  by (simp_all add: max64_def max32_def)

lemma round_fp_mono:
  assumes "1 \<le> p" "0 \<le> maxf" "x \<le> y"
  shows "fle (round_fp p emin maxf x) (round_fp p emin maxf y)"
  using round_to_mono [OF assms(1,3), of emin] assms(2)
  by (auto simp: round_fp_def Let_def)

lemma fabs_round_fp:
  assumes "0 \<le> maxf"
  shows "fabs (round_fp p emin maxf x) = round_fp p emin maxf \<bar>x\<bar>"
proof (cases "0 \<le> x")
  case True
  with round_to_nonneg [of x p emin] assms show ?thesis
    by (auto simp: round_fp_def Let_def)
next
  case False
  then have "0 \<le> - x" by simp
  from round_to_nonneg [OF this, of p emin] False assms show ?thesis
    by (auto simp: round_fp_def Let_def round_to_uminus abs_if)
qed

lemma round_fp_idem:
  assumes "1 \<le> p" "round_fp p emin maxf x = Fin y"
  shows "round_fp p emin maxf y = Fin y"
proof -
  from assms(2) have y: "y = round_to p emin x" and b: "\<not> maxf < y" "\<not> y < - maxf"
    by (auto simp: round_fp_def Let_def split: if_splits)
  have "round_to p emin y = y" unfolding y by (rule round_to_idem [OF assms(1)])
  with b show ?thesis by (simp add: round_fp_def Let_def)
qed

lemma round_fp_not_NaN: "round_fp p emin maxf x \<noteq> NaN"
  by (simp add: round_fp_def Let_def)

lemma fle_trans: "fle a b \<Longrightarrow> fle b c \<Longrightarrow> fle a c"
  by (cases a; cases b; cases c) auto


lemma fgt_not_fle: "fgt a b \<Longrightarrow> \<not> fle a b"
  by (cases a; cases b) auto


lemma round_fp_fixed:
  assumes "1 \<le> p" "\<bar>m\<bar> < 2 ^ p" "emin \<le> e" "\<bar>of_int m * 2 powr of_int e\<bar> \<le> maxf"
  shows "round_fp p emin maxf (of_int m * 2 powr of_int e) = Fin (of_int m * 2 powr of_int e)"
  using assms(4) unfolding round_fp_def Let_def round_to_fixed [OF assms(1-3)]
  by (auto simp: abs_le_iff)

lemma max64_ge: "2 ^ 53 \<le> max64"
proof -
  have "(1::real) * 2 ^ 53 \<le> (2 ^ 53 - 1) * 2 ^ 971"
    by (intro mult_mono power_increasing) simp_all
  then show ?thesis by (simp add: max64_def)
qed

lemma max32_ge: "2 ^ 24 \<le> max32"
proof -
  have "(1::real) * 2 ^ 24 \<le> (2 ^ 24 - 1) * 2 ^ 104"
    by (intro mult_mono power_increasing) simp_all
  then show ?thesis by (simp add: max32_def)
qed

lemma float64_int: "\<bar>m\<bar> < 2 ^ 53 \<Longrightarrow> float64 (of_int m) = Fin (of_int m)"
proof -
  assume m: "\<bar>m\<bar> < 2 ^ 53"
  then have "real_of_int \<bar>m\<bar> < real_of_int (2 ^ 53)" by (simp only: of_int_less_iff)
  then have "\<bar>real_of_int m\<bar> \<le> 2 ^ 53" by simp
  also note max64_ge
  finally have "\<bar>of_int m * 2 powr of_int 0\<bar> \<le> max64" by simp
  from round_fp_fixed [OF _ m _ this, of "- 1074"] show ?thesis by (simp add: float64_def)
qed

lemma float32_int: "\<bar>m\<bar> < 2 ^ 24 \<Longrightarrow> float32 (of_int m) = Fin (of_int m)"
proof -
  assume m: "\<bar>m\<bar> < 2 ^ 24"
  then have "real_of_int \<bar>m\<bar> < real_of_int (2 ^ 24)" by (simp only: of_int_less_iff)
  then have "\<bar>real_of_int m\<bar> \<le> 2 ^ 24" by simp
  also note max32_ge
  finally have "\<bar>of_int m * 2 powr of_int 0\<bar> \<le> max32" by simp
  from round_fp_fixed [OF _ m _ this, of "- 149"] show ?thesis by (simp add: float32_def)
qed

lemma float64_half: "float64 (1 / 2) = Fin (1 / 2)"
proof -
  have "(1::real) / 2 \<le> 2 ^ 53" by simp
  also note max64_ge
  finally have "\<bar>of_int 1 * 2 powr of_int (- 1)\<bar> \<le> max64"
    by (simp add: powr_minus)
  from round_fp_fixed [OF _ _ _ this, of 53 "- 1074"] show ?thesis
    by (simp add: float64_def powr_minus)
qed

lemma float64_mono: "x \<le> y \<Longrightarrow> fle (float64 x) (float64 y)"
  unfolding float64_def using max_pos by (intro round_fp_mono) simp_all

lemma float32_mono: "x \<le> y \<Longrightarrow> fle (float32 x) (float32 y)"
  unfolding float32_def using max_pos by (intro round_fp_mono) simp_all

lemma fabs_float64: "fabs (float64 x) = float64 \<bar>x\<bar>"
  unfolding float64_def using max_pos by (intro fabs_round_fp) simp

lemma fabs_float32: "fabs (float32 x) = float32 \<bar>x\<bar>"
  unfolding float32_def using max_pos by (intro fabs_round_fp) simp

lemma float64_idem: "float64 x = Fin y \<Longrightarrow> float64 y = Fin y"
  unfolding float64_def by (rule round_fp_idem) simp_all

lemma float64_0 [simp]: "float64 0 = Fin 0"
  using float64_int [of 0] by simp

lemma float64_1 [simp]: "float64 1 = Fin 1"
  using float64_int [of 1] by simp

lemma float32_0 [simp]: "float32 0 = Fin 0"
  using float32_int [of 0] by simp

lemma float32_1 [simp]: "float32 1 = Fin 1"
  using float32_int [of 1] by simp

lemma float64_not_NaN: "float64 x \<noteq> NaN"
  by (simp add: float64_def round_fp_not_NaN)

lemma float32_not_NaN: "float32 x \<noteq> NaN"
  by (simp add: float32_def round_fp_not_NaN)

lemma float64_minus_1 [simp]: "float64 (- 1) = Fin (- 1)"
  using float64_int [of "- 1"] by simp

lemma float32_minus_1 [simp]: "float32 (- 1) = Fin (- 1)"
  using float32_int [of "- 1"] by simp

lemma fle_Fin_bounds:
  assumes "fle (Fin lo) v" "fle v (Fin hi)"
  obtains r where "v = Fin r" "lo \<le> r" "r \<le> hi"
  using assms by (cases v) auto

lemma float64_abs_le:
  assumes "\<bar>x\<bar> \<le> b" "float64 b = Fin b"
  obtains r where "float64 x = Fin r" "\<bar>r\<bar> \<le> b"
proof -
  from float64_mono [OF assms(1)] have "fle (fabs (float64 x)) (Fin b)"
    by (simp add: fabs_float64 assms(2))
  then show ?thesis by (cases "float64 x") (auto intro: that)
qed

lemma fle_PInf: "v \<noteq> NaN \<Longrightarrow> fle v PInf"
  by (cases v) auto

lemma fle_NInf: "v \<noteq> NaN \<Longrightarrow> fle NInf v"
  by (cases v) auto

lemma fneg_mono: "fle x y \<Longrightarrow> fle (fneg y) (fneg x)"
  by (cases x; cases y) auto

lemma fadd_mono:
  "fle x y \<Longrightarrow> fadd c x \<noteq> NaN \<Longrightarrow> fadd c y \<noteq> NaN \<Longrightarrow> fle (fadd c x) (fadd c y)"
  by (cases c; cases x; cases y)
     (auto simp: float64_mono fle_PInf fle_NInf float64_not_NaN)

lemma fadd_NaN_right: "fadd c NaN = NaN"
  by (cases c) simp_all

lemma fmul_mono:
  assumes "0 \<le> kv" "fle x y" "fmul (Fin kv) x \<noteq> NaN" "fmul (Fin kv) y \<noteq> NaN"
  shows "fle (fmul (Fin kv) x) (fmul (Fin kv) y)"
proof (cases "kv = 0")
  case True
  with assms(2-4) show ?thesis by (cases x; cases y) auto
next
  case False
  with assms(1) have "0 < kv" by simp
  with assms(2) show ?thesis
    by (cases x; cases y) (auto simp: float64_mono fle_PInf fle_NInf float64_not_NaN)
qed

lemma fround_mono: "fle x y \<Longrightarrow> fle (fround x) (fround y)"
  by (cases x; cases y) (auto simp: float32_mono fle_PInf fle_NInf float32_not_NaN)

lemma fround_NaN_iff: "fround x = NaN \<longleftrightarrow> x = NaN"
  by (cases x) (auto simp: float32_not_NaN)

text \<open>
  The value of a rounding, from the binade of its argument; the integers below
  \<open>2\<^sup>5\<^sup>3\<close> and \<open>2\<^sup>2\<^sup>4\<close>; the doubles nearest to 1.3, 0.01 and 0.8.
\<close>

lemma round_to_le_pow2:
  assumes p: "1 \<le> p" and x: "\<bar>x\<bar> < 2 powr of_int (k + 1)" and e: "emin \<le> k + 1"
  shows "\<bar>round_to p emin x\<bar> \<le> 2 powr of_int (k + 1)"
proof -
  have one: "\<bar>1 :: int\<bar> < 2 ^ p" using p one_less_power [of "2::int" p] by simp
  have f: "round_to p emin (of_int 1 * 2 powr of_int (k + 1)) = of_int 1 * 2 powr of_int (k + 1)"
    by (rule round_to_fixed [OF p one e])
  have "\<bar>x\<bar> \<le> 2 powr of_int (k + 1)" using x by simp
  from round_to_mono [OF p this, of emin] f
  have "round_to p emin \<bar>x\<bar> \<le> 2 powr of_int (k + 1)" by simp
  moreover have "\<bar>round_to p emin x\<bar> = round_to p emin \<bar>x\<bar>"
    using round_to_nonneg [of x p emin] round_to_nonneg [of "- x" p emin]
    by (cases "0 \<le> x") (simp_all add: round_to_uminus abs_if)
  ultimately show ?thesis by simp
qed

lemma float64_eval:
  assumes "2 powr of_int k \<le> \<bar>x\<bar>" "\<bar>x\<bar> < 2 powr of_int (k + 1)"
    and "- 1022 \<le> k" "k < 1023"
  shows "float64 x = Fin (of_int (round_even (x / 2 powr of_int (k - 52))) * 2 powr of_int (k - 52))"
proof -
  have e: "max (- 1074) (k - int 53 + 1) = k - 52" using assms(3) by simp
  have r: "round_to 53 (- 1074) x
      = of_int (round_even (x / 2 powr of_int (k - 52))) * 2 powr of_int (k - 52)"
    unfolding round_to_binade [OF assms(1,2)] e ..
  have "\<bar>round_to 53 (- 1074) x\<bar> \<le> 2 powr of_int (k + 1)"
    using assms(2,3) by (intro round_to_le_pow2) simp_all
  also have "\<dots> \<le> 2 powr real (1023::nat)"
  proof (rule powr_mono)
    show "real_of_int (k + 1) \<le> real (1023::nat)" using assms(4) by linarith
  qed simp
  also have "\<dots> = 2 ^ 1023" by (rule powr_realpow) simp
  also have "\<dots> \<le> max64"
  proof -
    have "(2::real) ^ 52 * 2 ^ 971 \<le> (2 ^ 53 - 1) * 2 ^ 971" by (intro mult_right_mono) simp_all
    then show ?thesis by (simp add: max64_def flip: power_add)
  qed
  finally have "\<bar>round_to 53 (- 1074) x\<bar> \<le> max64" .
  then show ?thesis unfolding float64_def round_fp_def Let_def r [symmetric]
    by (auto simp: abs_le_iff)
qed

lemma float32_eval:
  assumes "2 powr of_int k \<le> \<bar>x\<bar>" "\<bar>x\<bar> < 2 powr of_int (k + 1)"
    and "- 126 \<le> k" "k < 127"
  shows "float32 x = Fin (of_int (round_even (x / 2 powr of_int (k - 23))) * 2 powr of_int (k - 23))"
proof -
  have e: "max (- 149) (k - int 24 + 1) = k - 23" using assms(3) by simp
  have r: "round_to 24 (- 149) x
      = of_int (round_even (x / 2 powr of_int (k - 23))) * 2 powr of_int (k - 23)"
    unfolding round_to_binade [OF assms(1,2)] e ..
  have "\<bar>round_to 24 (- 149) x\<bar> \<le> 2 powr of_int (k + 1)"
    using assms(2,3) by (intro round_to_le_pow2) simp_all
  also have "\<dots> \<le> 2 powr real (127::nat)"
  proof (rule powr_mono)
    show "real_of_int (k + 1) \<le> real (127::nat)" using assms(4) by linarith
  qed simp
  also have "\<dots> = 2 ^ 127" by (rule powr_realpow) simp
  also have "\<dots> \<le> max32"
  proof -
    have "(2::real) ^ 23 * 2 ^ 104 \<le> (2 ^ 24 - 1) * 2 ^ 104" by (intro mult_right_mono) simp_all
    then show ?thesis by (simp add: max32_def flip: power_add)
  qed
  finally have "\<bar>round_to 24 (- 149) x\<bar> \<le> max32" .
  then show ?thesis unfolding float32_def round_fp_def Let_def r [symmetric]
    by (auto simp: abs_le_iff)
qed

lemma float64_numeral [simp]:
  "\<bar>numeral n :: int\<bar> < 2 ^ 53 \<Longrightarrow> float64 (numeral n) = Fin (numeral n)"
  using float64_int [of "numeral n"] by simp

lemma float64_neg_numeral [simp]:
  "\<bar>numeral n :: int\<bar> < 2 ^ 53 \<Longrightarrow> float64 (- numeral n) = Fin (- numeral n)"
  using float64_int [of "- numeral n"] by simp

lemma float32_numeral [simp]:
  "\<bar>numeral n :: int\<bar> < 2 ^ 24 \<Longrightarrow> float32 (numeral n) = Fin (numeral n)"
  using float32_int [of "numeral n"] by simp

lemma float32_neg_numeral [simp]:
  "\<bar>numeral n :: int\<bar> < 2 ^ 24 \<Longrightarrow> float32 (- numeral n) = Fin (- numeral n)"
  using float32_int [of "- numeral n"] by simp

lemma float64_13: "float64 (13 / 10) = Fin (5854679515581645 / 4503599627370496)"
proof -
  have b: "2 powr of_int 0 \<le> \<bar>13 / 10 :: real\<bar>" "\<bar>13 / 10 :: real\<bar> < 2 powr of_int (0 + 1)"
    by simp_all
  have r: "round_to 53 (- 1074) (13 / 10) = 5854679515581645 / 4503599627370496"
    unfolding round_to_binade [OF b]
    by (simp add: round_even_def powr_neg_numeral)
  have "(5854679515581645 / 4503599627370496 :: real) \<le> 2 ^ 53" by simp
  also note max64_ge
  finally show ?thesis by (simp add: float64_def round_fp_def r)
qed

lemma dt64_value: "dt64 = Fin (5764607523034235 / 576460752303423488)"
  unfolding dt64_def
  by (subst float64_eval [of "- 7"]) (simp_all add: round_even_def powr_neg_numeral)

lemma float64_08: "float64 0.8 = Fin (3602879701896397 / 4503599627370496)"
  by (subst float64_eval [of "- 1"]) (simp_all add: round_even_def powr_neg_numeral powr_minus)

lemma c08: obtains c where "float64 0.8 = Fin c" "0 \<le> c" "c \<le> 1"
proof -
  have "fle (float64 0) (float64 0.8)" "fle (float64 0.8) (float64 1)"
    by (rule float64_mono, simp)+
  then have "fle (Fin 0) (float64 0.8)" "fle (float64 0.8) (Fin 1)" by simp_all
  then show ?thesis by (rule fle_Fin_bounds) (rule that)
qed

section \<open>The two kernels compute the same field\<close>

























section \<open>Pressure\<close>

text \<open>The slot \<open>i\<close> of the result of \<open>calculatePressure\<close> is the pressure of particle \<open>i\<close>.\<close>

lemma calculatePressure_particle:
  assumes run: "calculatePressure velocitiesJS n U rho = Inr ps" and i: "i < n"
  shows "ps ! i = particlePressure U rho (slots velocitiesJS i)"
proof -
  define F where "F i r = r[i := particlePressure U rho (slots velocitiesJS i)]"
    for i and r :: "fp list"
  from run have ps: "ps = fold F [0..<n] (replicate n (Fin 0))"
    unfolding calculatePressure_def F_def [abs_def] slots_def
    by (simp add: Let_def split: if_splits)
  have "m \<le> length r0 \<Longrightarrow> length (fold F [0..<m] r0) = length r0 \<and>
     (\<forall>i<m. fold F [0..<m] r0 ! i = particlePressure U rho (slots velocitiesJS i))"
    for m r0
  proof (induction m)
    case 0
    then show ?case by simp
  next
    case (Suc m)
    then show ?case by (auto simp: F_def nth_list_update less_Suc_eq)
  qed
  from this [of n "replicate n (Fin 0)"] i show ?thesis by (simp add: ps)
qed

text \<open>
  Half the density is a non-negative double when the density is; some stored pressures.
\<close>

lemma half_density:
  assumes "0 \<le> r" "float64 r = Fin r"
  obtains kv where "fmul (Fin 0.5) (Fin r) = Fin kv" "0 \<le> kv"
proof -
  have "fle (float64 0) (float64 (r / 2))" "fle (float64 (r / 2)) (float64 r)"
    using assms(1) by (intro float64_mono; simp)+
  then have "fle (Fin 0) (float64 (r / 2))" "fle (float64 (r / 2)) (Fin r)"
    by (simp_all add: assms(2))
  then obtain kv where "float64 (r / 2) = Fin kv" "0 \<le> kv" "kv \<le> r" by (rule fle_Fin_bounds)
  then show ?thesis by (intro that [of kv]) simp_all
qed

lemma magnitudeSquared_examples:
  "magnitudeSquared (Fin 1, Fin 0, Fin 0) = Fin 1"
  "magnitudeSquared (Fin 0, Fin 3, Fin 4) = Fin 25"
  "magnitudeSquared (Fin 0, Fin 0, Fin 0) = Fin 0"
  by (simp_all add: magnitudeSquared_def)

lemma pressure_examples:
  "particlePressure (Fin 1) (Fin 2) (Fin 1, Fin 0, Fin 0) = Fin 0"
  "particlePressure (Fin 1) (Fin 2) (Fin 0, Fin 3, Fin 4) = Fin (- 24)"
  by (simp_all add: particlePressure_def magnitudeSquared_examples Let_def fsub_def)

lemma square_small:
  "fmul (Fin (3 / 2 ^ 28)) (Fin (3 / 2 ^ 28)) = Fin (9 / 2 ^ 56)"
  by (simp, subst float64_eval [of "- 53"]) (simp_all add: round_even_def powr_neg_numeral)

lemma square_smaller:
  "fmul (Fin (5 / 2 ^ 29)) (Fin (5 / 2 ^ 29)) = Fin (25 / 2 ^ 58)"
  by (simp, subst float64_eval [of "- 54"]) (simp_all add: round_even_def powr_neg_numeral)

lemma sum_rounded_up: "fadd (Fin 1) (Fin (9 / 2 ^ 56)) = Fin (4503599627370497 / 4503599627370496)"
  by (simp, subst float64_eval [of 0]) (simp_all add: round_even_def powr_neg_numeral)

lemma sum_rounded_down: "fadd (Fin 1) (Fin (25 / 2 ^ 58)) = Fin 1"
  by (simp, subst float64_eval [of 0]) (simp_all add: round_even_def powr_neg_numeral)

lemma magnitudeSquared_reversed:
  "magnitudeSquared (Fin 1, Fin (3 / 2 ^ 28), Fin 0) = Fin (4503599627370497 / 4503599627370496)"
  "magnitudeSquared (Fin 1, Fin (5 / 2 ^ 29), Fin (5 / 2 ^ 29)) = Fin 1"
proof -
  have z: "fadd (Fin (4503599627370497 / 4503599627370496)) (Fin 0)
      = Fin (4503599627370497 / 4503599627370496)"
    using float64_idem [OF sum_rounded_up [unfolded fadd.simps]] by simp
  have sq: "fmul (Fin 1) (Fin 1) = Fin 1" "fmul (Fin 0) (Fin 0) = Fin 0" by simp_all
  show "magnitudeSquared (Fin 1, Fin (3 / 2 ^ 28), Fin 0)
      = Fin (4503599627370497 / 4503599627370496)"
    by (simp only: magnitudeSquared_def prod.case square_small sq sum_rounded_up z)
  show "magnitudeSquared (Fin 1, Fin (5 / 2 ^ 29), Fin (5 / 2 ^ 29)) = Fin 1"
    by (simp only: magnitudeSquared_def prod.case square_smaller sq sum_rounded_down)
qed

lemma pressure_reversed:
  "particlePressure (Fin 1) (Fin 2) (Fin 1, Fin (3 / 2 ^ 28), Fin 0) = Fin (- (1 / 2 ^ 52))"
  "particlePressure (Fin 1) (Fin 2) (Fin 1, Fin (5 / 2 ^ 29), Fin (5 / 2 ^ 29)) = Fin 0"
proof -
  have k: "fmul (Fin 0.5) (Fin 2) = Fin 1" by simp
  have pRef: "fmul (fmul (Fin 1) (Fin 1)) (Fin 1) = Fin 1" by simp
  have t: "fmul (Fin 1) (Fin (4503599627370497 / 4503599627370496))
      = Fin (4503599627370497 / 4503599627370496)"
    using float64_idem [OF sum_rounded_up [unfolded fadd.simps]] by simp
  have d: "fsub (Fin 1) (Fin (4503599627370497 / 4503599627370496)) = Fin (- (1 / 2 ^ 52))"
    by (simp add: fsub_def, subst float64_eval [of "- 52"])
       (simp_all add: round_even_def powr_neg_numeral)
  have f: "fround (Fin (- (1 / 2 ^ 52))) = Fin (- (1 / 2 ^ 52))"
    by (simp, subst float32_eval [of "- 52"]) (simp_all add: round_even_def powr_neg_numeral)
  show "particlePressure (Fin 1) (Fin 2) (Fin 1, Fin (3 / 2 ^ 28), Fin 0) = Fin (- (1 / 2 ^ 52))"
    unfolding particlePressure_def Let_def magnitudeSquared_reversed k pRef t d f ..
  show "particlePressure (Fin 1) (Fin 2) (Fin 1, Fin (5 / 2 ^ 29), Fin (5 / 2 ^ 29)) = Fin 0"
    unfolding particlePressure_def Let_def magnitudeSquared_reversed k pRef
    by (simp add: fsub_def)
qed

lemma pressure_collapsed:
  "particlePressure (Fin 8192) (Fin 1) (Fin 0, Fin 0, Fin 0) = Fin 33554432"
  "particlePressure (Fin 8192) (Fin 1) (Fin 1, Fin 0, Fin 0) = Fin 33554432"
proof -
  have k: "fmul (Fin 0.5) (Fin 1) = Fin (1 / 2)" by (simp add: float64_half)
  have pRef: "fmul (fmul (Fin (1 / 2)) (Fin 8192)) (Fin 8192) = Fin 33554432" by simp
  have t0: "fmul (Fin (1 / 2)) (Fin 0) = Fin 0" and t1: "fmul (Fin (1 / 2)) (Fin 1) = Fin (1 / 2)"
    by (simp_all add: float64_half)
  have d0: "fsub (Fin 33554432) (Fin 0) = Fin 33554432" by (simp add: fsub_def)
  have d1: "fsub (Fin 33554432) (Fin (1 / 2)) = Fin (67108863 / 2)"
    by (simp add: fsub_def, subst float64_eval [of 24])
       (simp_all add: round_even_def powr_neg_numeral)
  have f0: "fround (Fin 33554432) = Fin 33554432"
    by (simp, subst float32_eval [of 25]) (simp_all add: round_even_def powr_neg_numeral)
  have f1: "fround (Fin (67108863 / 2)) = Fin 33554432"
    by (simp, subst float32_eval [of 24]) (simp_all add: round_even_def powr_neg_numeral)
  show "particlePressure (Fin 8192) (Fin 1) (Fin 0, Fin 0, Fin 0) = Fin 33554432"
    unfolding particlePressure_def Let_def magnitudeSquared_examples k pRef t0 d0 f0 ..
  show "particlePressure (Fin 8192) (Fin 1) (Fin 1, Fin 0, Fin 0) = Fin 33554432"
    unfolding particlePressure_def Let_def magnitudeSquared_examples k pRef t1 d1 f1 ..
qed

lemma pressure_negative_density:
  "particlePressure (Fin 1) (Fin (- 2)) (Fin 0, Fin 0, Fin 0) = Fin (- 1)"
  "particlePressure (Fin 1) (Fin (- 2)) (Fin 1, Fin 0, Fin 0) = Fin 0"
  by (simp_all add: particlePressure_def magnitudeSquared_examples Let_def fsub_def)

lemma pressure_undefined:
  "particlePressure PInf (Fin 0) (Fin 0, Fin 0, Fin 0) = NaN"
  "particlePressure PInf (Fin 0) (Fin 1, Fin 0, Fin 0) = NaN"
  by (simp_all add: particlePressure_def magnitudeSquared_examples Let_def fsub_def)

text \<open>
  C7 (amended). For a density that is a non-negative double and any free-stream speed, the
  pressure that \<open>calculatePressure\<close> stores for a particle is non-increasing in the
  squared magnitude \<open>v2\<close> that it computes for the velocity of the particle: when the
  squared magnitude computed for \<open>v1\<close> is at most the one computed for \<open>v2\<close>, the
  pressure stored for \<open>v2\<close> is at most the one stored for \<open>v1\<close>, unless one of the two
  pressures is NaN.
\<close>

theorem pressure_decreasing:
  assumes rho: "0 \<le> r" "float64 r = Fin r"
    and s: "fle (magnitudeSquared v1) (magnitudeSquared v2)"
    and nn: "particlePressure U (Fin r) v1 \<noteq> NaN" "particlePressure U (Fin r) v2 \<noteq> NaN"
  shows "fle (particlePressure U (Fin r) v2) (particlePressure U (Fin r) v1)"
proof -
  from rho obtain kv where k: "fmul (Fin 0.5) (Fin r) = Fin kv" "0 \<le> kv" by (rule half_density)
  define pRef where "pRef = fmul (fmul (Fin kv) U) U"
  define t1 where "t1 = fmul (Fin kv) (magnitudeSquared v1)"
  define t2 where "t2 = fmul (Fin kv) (magnitudeSquared v2)"
  have p1: "particlePressure U (Fin r) v1 = fround (fadd pRef (fneg t1))"
    and p2: "particlePressure U (Fin r) v2 = fround (fadd pRef (fneg t2))"
    unfolding particlePressure_def Let_def k pRef_def fsub_def t1_def t2_def by (rule refl)+
  have a: "fadd pRef (fneg t1) \<noteq> NaN" "fadd pRef (fneg t2) \<noteq> NaN"
    using nn unfolding p1 p2 by (simp_all add: fround_NaN_iff)
  have "t1 \<noteq> NaN" "t2 \<noteq> NaN"
    using a by (auto simp: fadd_NaN_right)
  then have "fle t1 t2" unfolding t1_def t2_def by (intro fmul_mono k(2) s)
  then have "fle (fneg t2) (fneg t1)" by (rule fneg_mono)
  then have "fle (fadd pRef (fneg t2)) (fadd pRef (fneg t1))" using a(2,1) by (rule fadd_mono)
  then show ?thesis unfolding p1 p2 by (rule fround_mono)
qed

theorem pressure_decreasing_witness:
  "(0::real) \<le> 2 \<and> float64 2 = Fin 2
   \<and> magnitudeSquared (Fin 1, Fin 0, Fin 0) = Fin 1
   \<and> magnitudeSquared (Fin 0, Fin 3, Fin 4) = Fin 25
   \<and> fle (magnitudeSquared (Fin 1, Fin 0, Fin 0)) (magnitudeSquared (Fin 0, Fin 3, Fin 4))
   \<and> particlePressure (Fin 1) (Fin 2) (Fin 1, Fin 0, Fin 0) = Fin 0
   \<and> particlePressure (Fin 1) (Fin 2) (Fin 0, Fin 3, Fin 4) = Fin (- 24)
   \<and> fle (particlePressure (Fin 1) (Fin 2) (Fin 0, Fin 3, Fin 4))
          (particlePressure (Fin 1) (Fin 2) (Fin 1, Fin 0, Fin 0))"
proof -
  have r: "(0::real) \<le> 2" "float64 2 = Fin 2" by simp_all
  have s: "fle (magnitudeSquared (Fin 1, Fin 0, Fin 0)) (magnitudeSquared (Fin 0, Fin 3, Fin 4))"
    by (simp add: magnitudeSquared_examples)
  have nn: "particlePressure (Fin 1) (Fin 2) (Fin 1, Fin 0, Fin 0) \<noteq> NaN"
    "particlePressure (Fin 1) (Fin 2) (Fin 0, Fin 3, Fin 4) \<noteq> NaN"
    by (simp_all add: pressure_examples)
  from pressure_decreasing [OF r s nn] r s magnitudeSquared_examples(1,2) pressure_examples
  show ?thesis by blast
qed

text \<open>
  The claim as stated, strictly decreasing in the magnitude of the velocity for every
  density, fails in each respect. With free-stream speed 1 and density 2 the velocity
  \<open>(1, 3 / 2\<^sup>2\<^sup>8, 0)\<close> is shorter than \<open>(1, 5 / 2\<^sup>2\<^sup>9, 5 / 2\<^sup>2\<^sup>9)\<close>, but the sum of
  its squares is rounded up to \<open>1 + 2\<^sup>-\<^sup>5\<^sup>2\<close> and that of the longer one down to 1, so
  the stored pressures are \<open>- 2\<^sup>-\<^sup>5\<^sup>2\<close> and 0: the shorter velocity has the lower pressure.
  With free-stream speed 8192 and density 1 the velocities \<open>(0, 0, 0)\<close> and \<open>(1, 0, 0)\<close>
  get the same stored pressure 33554432, because 33554431.5 is not a single. With the
  density \<open>-2\<close> the pressure increases with the speed, from \<open>-1\<close> to 0. With an
  infinite free-stream speed and density 0 the reference pressure \<open>0 * Infinity\<close> and with it
  every pressure is NaN.
\<close>

theorem pressure_not_decreasing:
  "speed (1, 3 / 2 ^ 28, 0) < speed (1, 5 / 2 ^ 29, 5 / 2 ^ 29)
   \<and> particlePressure (Fin 1) (Fin 2) (Fin 1, Fin (3 / 2 ^ 28), Fin 0) = Fin (- (1 / 2 ^ 52))
   \<and> particlePressure (Fin 1) (Fin 2) (Fin 1, Fin (5 / 2 ^ 29), Fin (5 / 2 ^ 29)) = Fin 0
   \<and> speed (0, 0, 0) < speed (1, 0, 0)
   \<and> particlePressure (Fin 8192) (Fin 1) (Fin 0, Fin 0, Fin 0) = Fin 33554432
   \<and> particlePressure (Fin 8192) (Fin 1) (Fin 1, Fin 0, Fin 0) = Fin 33554432
   \<and> particlePressure (Fin 1) (Fin (- 2)) (Fin 0, Fin 0, Fin 0) = Fin (- 1)
   \<and> particlePressure (Fin 1) (Fin (- 2)) (Fin 1, Fin 0, Fin 0) = Fin 0
   \<and> particlePressure PInf (Fin 0) (Fin 0, Fin 0, Fin 0) = NaN
   \<and> particlePressure PInf (Fin 0) (Fin 1, Fin 0, Fin 0) = NaN"
proof -
  have "speed (1, 3 / 2 ^ 28, 0) < speed (1, 5 / 2 ^ 29, 5 / 2 ^ 29)"
    "speed (0, 0, 0) < speed (1, 0, 0)"
    by (simp_all add: speed_def)
  with pressure_reversed pressure_collapsed pressure_negative_density pressure_undefined
  show ?thesis by blast
qed

section \<open>Recycling\<close>

text \<open>
  What the loop body does to the arrays: lengths are kept, the slots of the other
  particles are untouched, and particle \<open>i\<close> is moved as \<open>movedF\<close> says.
\<close>

lemma moveParticleF_length:
  "moveParticleF tn U rnd i (pos, vel, k) = (pos', vel', k') \<Longrightarrow>
   length pos' = length pos \<and> length vel' = length vel"
  by (auto simp: moveParticleF_def Let_def split: if_splits)

lemma moveParticleF_other:
  "moveParticleF tn U rnd i (pos, vel, k) = (pos', vel', k') \<Longrightarrow> j < i * 3 \<or> i * 3 + 3 \<le> j \<Longrightarrow>
   pos' ! j = pos ! j \<and> vel' ! j = vel ! j"
  by (auto simp: moveParticleF_def Let_def split: if_splits)

lemma moveParticleF_slot:
  "moveParticleF tn U rnd i (pos, vel, k) = (pos', vel', k') \<Longrightarrow>
   i * 3 + 2 < length pos \<Longrightarrow> i * 3 + 2 < length vel \<Longrightarrow>
   (slots pos' i, slots vel' i) = movedF tn U rnd (integratedF pos vel i) (slots vel i) k"
  by (auto simp: moveParticleF_def Let_def slots_def movedF_def integratedF_def
      exitsF_def sidewaysF_def split: if_splits)

lemma moveParticlesF_0: "moveParticlesF tn U rnd 0 st = st"
  by (simp add: moveParticlesF_def)

lemma moveParticlesF_Suc:
  "moveParticlesF tn U rnd (Suc n) st = moveParticleF tn U rnd n (moveParticlesF tn U rnd n st)"
  by (simp add: moveParticlesF_def)

lemma slots_cong:
  "\<forall>j. i * 3 \<le> j \<and> j < i * 3 + 3 \<longrightarrow> xs ! j = ys ! j \<Longrightarrow> slots xs i = slots ys i"
  by (simp add: slots_def)

lemma integratedF_cong:
  "\<forall>j. i * 3 \<le> j \<and> j < i * 3 + 3 \<longrightarrow> p ! j = p' ! j \<and> v ! j = v' ! j \<Longrightarrow>
   integratedF p v i = integratedF p' v' i"
  by (simp add: integratedF_def)

text \<open>
  The invariant of the loop: after \<open>n\<close> steps every particle \<open>i < n\<close> has been moved
  once, from its initial slots, with some pair of consecutive random draws.
\<close>

lemma moveParticlesF_inv:
  "n * 3 \<le> length pos \<Longrightarrow> n * 3 \<le> length vel \<Longrightarrow>
   moveParticlesF tn U rnd n (pos, vel, k) = (pos', vel', k') \<Longrightarrow>
   length pos' = length pos \<and> length vel' = length vel \<and>
   (\<forall>j. n * 3 \<le> j \<longrightarrow> pos' ! j = pos ! j \<and> vel' ! j = vel ! j) \<and>
   (\<forall>i<n. \<exists>ki. (slots pos' i, slots vel' i)
                  = movedF tn U rnd (integratedF pos vel i) (slots vel i) ki)"
proof (induction n arbitrary: pos' vel' k')
  case 0
  then show ?case by (simp add: moveParticlesF_0)
next
  case (Suc n)
  obtain p1 v1 k1 where st1: "moveParticlesF tn U rnd n (pos, vel, k) = (p1, v1, k1)"
    by (cases "moveParticlesF tn U rnd n (pos, vel, k)") auto
  from Suc.prems have len: "n * 3 \<le> length pos" "n * 3 \<le> length vel" by simp_all
  from Suc.IH [OF len st1] have
    l1: "length p1 = length pos" "length v1 = length vel" and
    same1: "\<And>j. n * 3 \<le> j \<Longrightarrow> p1 ! j = pos ! j \<and> v1 ! j = vel ! j" and
    done1: "\<And>i. i < n \<Longrightarrow> \<exists>ki. (slots p1 i, slots v1 i)
                  = movedF tn U rnd (integratedF pos vel i) (slots vel i) ki"
    by blast+
  from Suc.prems(3) st1 have step: "moveParticleF tn U rnd n (p1, v1, k1) = (pos', vel', k')"
    by (simp add: moveParticlesF_Suc)
  note len' = moveParticleF_length [OF step]
  note other = moveParticleF_other [OF step]
  have in1: "n * 3 + 2 < length p1" "n * 3 + 2 < length v1"
    using Suc.prems(1,2) l1 by simp_all
  note here = moveParticleF_slot [OF step in1]
  have A: "length pos' = length pos \<and> length vel' = length vel"
    using len' l1 by simp
  have B: "\<forall>j. Suc n * 3 \<le> j \<longrightarrow> pos' ! j = pos ! j \<and> vel' ! j = vel ! j"
  proof (intro allI impI)
    fix j assume j: "Suc n * 3 \<le> j"
    then have "pos' ! j = p1 ! j \<and> vel' ! j = v1 ! j" using other [of j] by simp
    moreover have "p1 ! j = pos ! j \<and> v1 ! j = vel ! j" using same1 [of j] j by simp
    ultimately show "pos' ! j = pos ! j \<and> vel' ! j = vel ! j" by simp
  qed
  have C: "\<forall>i<Suc n. \<exists>ki. (slots pos' i, slots vel' i)
                  = movedF tn U rnd (integratedF pos vel i) (slots vel i) ki"
  proof (intro allI impI)
    fix i assume i: "i < Suc n"
    show "\<exists>ki. (slots pos' i, slots vel' i)
                  = movedF tn U rnd (integratedF pos vel i) (slots vel i) ki"
    proof (cases "i < n")
      case True
      then have "\<forall>j. i * 3 \<le> j \<and> j < i * 3 + 3 \<longrightarrow> pos' ! j = p1 ! j"
        and "\<forall>j. i * 3 \<le> j \<and> j < i * 3 + 3 \<longrightarrow> vel' ! j = v1 ! j"
        using other by auto
      then have "slots pos' i = slots p1 i" "slots vel' i = slots v1 i"
        by (auto intro: slots_cong)
      with done1 [OF True] show ?thesis by simp
    next
      case False
      with i have [simp]: "i = n" by simp
      have "integratedF p1 v1 n = integratedF pos vel n"
        by (rule integratedF_cong) (use same1 in auto)
      moreover have "slots v1 n = slots vel n"
        by (rule slots_cong) (use same1 in auto)
      ultimately show ?thesis using here by auto
    qed
  qed
  from A B C show ?case by blast
qed

lemma moveParticlesF_particle:
  assumes run: "moveParticlesF tn U random n (pos, vel, k) = (pos', vel', k')"
    and len: "n * 3 \<le> length pos" "n * 3 \<le> length vel" and i: "i < n"
  obtains ki where
    "((pos' ! (i * 3), pos' ! (i * 3 + 1), pos' ! (i * 3 + 2)), slots vel' i)
       = movedF tn U random (integratedF pos vel i) (slots vel i) ki"
proof -
  from moveParticlesF_inv [OF len run] i obtain ki where
    "(slots pos' i, slots vel' i) = movedF tn U random (integratedF pos vel i) (slots vel i) ki"
    by blast
  then show ?thesis by (intro that [of ki]) (simp add: slots_def)
qed

text \<open>
  The coordinate stored for a particle that left sideways is, in absolute value, at most
  the single nearest to the double \<open>w / 2 * 0.8\<close>, and at most \<open>w / 2\<close> when that is a
  single: every rounding on the way is monotone.
\<close>

lemma reseed_within:
  assumes u: "0 \<le> u" "u < 1" and w: "0 \<le> w" "float64 w = Fin w"
  shows "fle (fabs (reseed u w)) (fround (fmul (fdiv (float64 w) (Fin 2)) (float64 0.8)))"
    and "fround (fdiv (float64 w) (Fin 2)) = fdiv (float64 w) (Fin 2) \<Longrightarrow>
         fle (fabs (reseed u w)) (fdiv (float64 w) (Fin 2))"
proof -
  obtain c where c: "float64 0.8 = Fin c" "0 \<le> c" "c \<le> 1" by (rule c08)
  have "fle (float64 0) (float64 (w / 2))" "fle (float64 (w / 2)) (float64 w)"
    using w(1) by (intro float64_mono; simp)+
  then have "fle (Fin 0) (float64 (w / 2))" "fle (float64 (w / 2)) (Fin w)"
    by (simp_all add: w(2))
  then obtain h where h: "float64 (w / 2) = Fin h" "0 \<le> h" "h \<le> w" by (rule fle_Fin_bounds)
  have H: "fdiv (float64 w) (Fin 2) = Fin h" by (simp add: w(2) h(1))
  have hf: "float64 h = Fin h" using h(1) by (rule float64_idem)
  have "\<bar>u - 1 / 2\<bar> \<le> 1 / 2" using u by linarith
  then obtain a where a: "float64 (u - 1 / 2) = Fin a" "\<bar>a\<bar> \<le> 1 / 2"
    using float64_half by (rule float64_abs_le)
  have s1: "fsub (Fin u) (Fin 0.5) = Fin a" using a(1) by (simp add: fsub_def)
  have "\<bar>a * w\<bar> = \<bar>a\<bar> * w" using w(1) by (simp add: abs_mult)
  also have "\<dots> \<le> 1 / 2 * w" using a(2) w(1) by (rule mult_right_mono)
  finally have "\<bar>a * w\<bar> \<le> w / 2" by simp
  then have "fle (fabs (float64 (a * w))) (float64 (w / 2))"
    unfolding fabs_float64 by (rule float64_mono)
  then obtain b where b: "float64 (a * w) = Fin b" "\<bar>b\<bar> \<le> h"
    unfolding h(1) by (cases "float64 (a * w)") auto
  have s2: "fmul (Fin a) (float64 w) = Fin b" by (simp add: w(2) b(1))
  have bc: "\<bar>b * c\<bar> \<le> h * c" using b(2) c(2) by (simp add: abs_mult mult_right_mono)
  have hc: "h * c \<le> h" using h(2) c(2,3) by (simp add: mult_left_le)
  have "fle (float64 0) (float64 (h * c))" "fle (float64 (h * c)) (float64 h)"
    using h(2) c(2) hc by (intro float64_mono; simp)+
  then have "fle (Fin 0) (float64 (h * c))" "fle (float64 (h * c)) (Fin h)"
    by (simp_all add: hf)
  then obtain B where B: "float64 (h * c) = Fin B" "0 \<le> B" "B \<le> h" by (rule fle_Fin_bounds)
  have "fle (fabs (float64 (b * c))) (float64 (h * c))"
    unfolding fabs_float64 using bc by (rule float64_mono)
  then obtain d where d: "float64 (b * c) = Fin d" "\<bar>d\<bar> \<le> B"
    unfolding B(1) by (cases "float64 (b * c)") auto
  have r: "reseed u w = float32 d"
    unfolding reseed_def s1 s2 c(1) fmul.simps d(1) fround.simps ..
  have bound: "fmul (fdiv (float64 w) (Fin 2)) (float64 0.8) = Fin B"
    unfolding H c(1) fmul.simps B(1) ..
  have 1: "fle (fabs (reseed u w)) (float32 B)"
    unfolding r fabs_float32 using d(2) by (rule float32_mono)
  then show "fle (fabs (reseed u w)) (fround (fmul (fdiv (float64 w) (Fin 2)) (float64 0.8)))"
    unfolding bound fround.simps .
  assume "fround (fdiv (float64 w) (Fin 2)) = fdiv (float64 w) (Fin 2)"
  then have "float32 h = Fin h" by (simp add: H)
  with float32_mono [OF B(3)] have "fle (float32 B) (Fin h)" by simp
  with 1 show "fle (fabs (reseed u w)) (fdiv (float64 w) (Fin 2))"
    unfolding H by (rule fle_trans)
qed


text \<open>
  The loop on one particle in the tunnel of \<open>initializeParticles\<close>: on the exit plane
  with velocity \<open>(1, 0, 0)\<close> and free-stream speed 1.3; on the side wall \<open>y = 4\<close>
  moving outwards, with \<open>Math.random\<close> returning 0; on the entry plane moving upstream;
  and inside the tunnel with a z-velocity that is NaN.
\<close>

lemma defaultTunnel_fields:
  "entryX defaultTunnel = - 10" "exitX defaultTunnel = 10"
  "width defaultTunnel = 8" "height defaultTunnel = 8"
  by (simp_all add: defaultTunnel_def)

lemma halfWidth_default: "halfWidth defaultTunnel = Fin 4" "halfHeight defaultTunnel = Fin 4"
  by (simp_all add: halfWidth_def halfHeight_def defaultTunnel_def)

lemma zeroRandom_unit: "\<forall>j. 0 \<le> zeroRandom j \<and> zeroRandom j < 1"
  by (simp add: zeroRandom_def)

lemma defaultTunnel_doubles:
  "0 \<le> width defaultTunnel" "float64 (width defaultTunnel) = Fin (width defaultTunnel)"
  "0 \<le> height defaultTunnel" "float64 (height defaultTunnel) = Fin (height defaultTunnel)"
  by (simp_all add: defaultTunnel_fields)


lemma step_exit_plane:
  "fround (fadd (Fin 10) (fmul (Fin 1) dt64)) = Fin (5248123 / 524288)"
proof -
  have "fmul (Fin 1) dt64 = Fin (5764607523034235 / 576460752303423488)"
    using float64_idem [OF dt64_value [unfolded dt64_def]] by (simp add: dt64_value)
  moreover have "fadd (Fin 10) (Fin (5764607523034235 / 576460752303423488))
      = Fin (5635129033747333 / 562949953421312)"
    by (simp, subst float64_eval [of 3]) (simp_all add: round_even_def powr_neg_numeral)
  moreover have "fround (Fin (5635129033747333 / 562949953421312)) = Fin (5248123 / 524288)"
    by (simp, subst float32_eval [of 3]) (simp_all add: round_even_def powr_neg_numeral)
  ultimately show ?thesis by simp
qed

lemma step_rest: "fround (fadd (Fin 0) (fmul (Fin 0) dt64)) = Fin 0"
  by (simp add: dt64_value)

lemma step_wall:
  "fround (fadd (Fin 4) (fmul (Fin 1) dt64)) = Fin (2102395 / 524288)"
proof -
  have "fmul (Fin 1) dt64 = Fin (5764607523034235 / 576460752303423488)"
    using float64_idem [OF dt64_value [unfolded dt64_def]] by (simp add: dt64_value)
  moreover have "fadd (Fin 4) (Fin (5764607523034235 / 576460752303423488))
      = Fin (2257429313219461 / 562949953421312)"
    by (simp, subst float64_eval [of 2]) (simp_all add: round_even_def powr_neg_numeral)
  moreover have "fround (Fin (2257429313219461 / 562949953421312)) = Fin (2102395 / 524288)"
    by (simp, subst float32_eval [of 2]) (simp_all add: round_even_def powr_neg_numeral)
  ultimately show ?thesis by simp
qed


lemma fround_13: "fround (float64 (13 / 10)) = Fin (5452595 / 4194304)"
  unfolding float64_13
  by (simp, subst float32_eval [of 0]) (simp_all add: round_even_def powr_neg_numeral)

lemma reseed_zero: "reseed 0 8 = Fin (- (13421773 / 4194304))"
proof -
  have "fsub (Fin 0) (Fin 0.5) = Fin (- (1 / 2))"
    by (simp add: fsub_def, subst float64_eval [of "- 1"])
       (simp_all add: round_even_def powr_neg_numeral powr_minus)
  moreover have "fmul (Fin (- (1 / 2))) (float64 8) = Fin (- 4)" by simp
  moreover have "fmul (Fin (- 4)) (float64 0.8) = Fin (- (3602879701896397 / 1125899906842624))"
    unfolding float64_08
    by (simp, subst float64_eval [of 1]) (simp_all add: round_even_def powr_neg_numeral)
  moreover have "fround (Fin (- (3602879701896397 / 1125899906842624)))
      = Fin (- (13421773 / 4194304))"
    by (simp, subst float32_eval [of 1]) (simp_all add: round_even_def powr_neg_numeral)
  ultimately show ?thesis unfolding reseed_def by (simp only:)
qed

lemma integrated_wall:
  "integratedF [Fin 0, Fin 4, Fin 0] [Fin 0, Fin 1, Fin 0] 0
     = (Fin 0, Fin (2102395 / 524288), Fin 0)"
  by (simp add: integratedF_def step_wall step_rest)


lemma scenario1:
  "moveParticlesF defaultTunnel (float64 (13 / 10)) zeroRandom 1
     ([Fin 10, Fin 0, Fin 0], [Fin 1, Fin 0, Fin 0], 0)
   = ([Fin (- 10), Fin 0, Fin 0], [Fin (5452595 / 4194304), Fin 0, Fin 0], 0)"
  by (simp add: moveParticlesF_def moveParticleF_def Let_def step_exit_plane step_rest fround_13
      halfWidth_default defaultTunnel_fields)

lemma scenario_wall:
  "moveParticlesF defaultTunnel (Fin 1) zeroRandom 1
     ([Fin 0, Fin 4, Fin 0], [Fin 0, Fin 1, Fin 0], 0)
   = ([Fin (- 10), Fin (- (13421773 / 4194304)), Fin (- (13421773 / 4194304))],
      [Fin 1, Fin 0, Fin 0], 2)"
  by (simp add: moveParticlesF_def moveParticleF_def Let_def step_wall step_rest reseed_zero
      halfWidth_default defaultTunnel_fields zeroRandom_def)



lemma airfoil_vz_at_rest: "fdiv (fmul t (Fin 0)) (fmul (Fin 1) (Fin 0)) = NaN"
  by (cases t) simp_all

text \<open>
  C4 (amended). In the loop over \<open>n\<close> particles, on arrays with three slots per
  particle, with \<open>Math.random\<close> in \<open>[0, 1)\<close> and a tunnel whose width and height are
  non-negative doubles: when the position \<open>(px, py, pz)\<close> that the array holds for
  particle \<open>i\<close> after integration has \<open>px > exitX\<close> or \<open>|py| > width / 2\<close> or
  \<open>|pz| > height / 2\<close>, its final x is the single nearest to \<open>entryX\<close> and its final
  velocity is \<open>(u, 0, 0)\<close> with \<open>u\<close> the single nearest to the free-stream speed
  \<open>U\<close>; if y or z was out of bounds, its y and z are the singles stored for
  \<open>(random - 0.5) * width * 0.8\<close> and \<open>(random - 0.5) * height * 0.8\<close> with two
  consecutive draws, in absolute value at most the single nearest to the double
  \<open>width / 2 * 0.8\<close>, respectively \<open>height / 2 * 0.8\<close>; otherwise its y and z are those
  after integration.
\<close>

theorem recycled_particle:
  assumes run: "moveParticlesF tn U random n (pos, vel, k) = (pos', vel', k')"
    and len: "n * 3 \<le> length pos" "n * 3 \<le> length vel" and i: "i < n"
    and rnd: "\<forall>j. 0 \<le> random j \<and> random j < 1"
    and w: "0 \<le> width tn" "float64 (width tn) = Fin (width tn)"
    and h: "0 \<le> height tn" "float64 (height tn) = Fin (height tn)"
    and p: "integratedF pos vel i = (px, py, pz)"
    and out: "exitsF tn (px, py, pz)"
  shows "pos' ! (i * 3) = fround (float64 (entryX tn))
     \<and> slots vel' i = (fround U, Fin 0, Fin 0)
     \<and> (if sidewaysF tn (px, py, pz)
        then (\<exists>j. pos' ! (i * 3 + 1) = reseed (random j) (width tn)
                  \<and> pos' ! (i * 3 + 2) = reseed (random (j + 1)) (height tn))
             \<and> fle (fabs (pos' ! (i * 3 + 1))) (fround (fmul (halfWidth tn) (float64 0.8)))
             \<and> fle (fabs (pos' ! (i * 3 + 2))) (fround (fmul (halfHeight tn) (float64 0.8)))
        else pos' ! (i * 3 + 1) = py \<and> pos' ! (i * 3 + 2) = pz)"
proof -
  from run len i obtain ki where
    m: "((pos' ! (i * 3), pos' ! (i * 3 + 1), pos' ! (i * 3 + 2)), slots vel' i)
       = movedF tn U random (integratedF pos vel i) (slots vel i) ki"
    by (rule moveParticlesF_particle)
  have x: "pos' ! (i * 3) = fround (float64 (entryX tn))"
    and v: "slots vel' i = (fround U, Fin 0, Fin 0)"
    using m out unfolding p movedF_def by simp_all
  show ?thesis
  proof (cases "sidewaysF tn (px, py, pz)")
    case True
    then have y: "pos' ! (i * 3 + 1) = reseed (random ki) (width tn)"
      and z: "pos' ! (i * 3 + 2) = reseed (random (ki + 1)) (height tn)"
      using m out unfolding p movedF_def by simp_all
    from rnd have r: "0 \<le> random ki" "random ki < 1" "0 \<le> random (ki + 1)" "random (ki + 1) < 1"
      by simp_all
    have "fle (fabs (pos' ! (i * 3 + 1))) (fround (fmul (halfWidth tn) (float64 0.8)))"
      unfolding y halfWidth_def by (rule reseed_within(1) [OF r(1,2) w])
    moreover have "fle (fabs (pos' ! (i * 3 + 2))) (fround (fmul (halfHeight tn) (float64 0.8)))"
      unfolding z halfHeight_def by (rule reseed_within(1) [OF r(3,4) h])
    ultimately show ?thesis using True x v y z by auto
  next
    case False
    then have "pos' ! (i * 3 + 1) = py" "pos' ! (i * 3 + 2) = pz"
      using m out unfolding p movedF_def by simp_all
    with False x v show ?thesis by simp
  qed
qed

theorem recycled_particle_witness:
  "moveParticlesF defaultTunnel (Fin 1) zeroRandom 1
     ([Fin 0, Fin 4, Fin 0], [Fin 0, Fin 1, Fin 0], 0)
   = ([Fin (- 10), Fin (- (13421773 / 4194304)), Fin (- (13421773 / 4194304))],
      [Fin 1, Fin 0, Fin 0], 2)
   \<and> (\<forall>j. 0 \<le> zeroRandom j \<and> zeroRandom j < 1)
   \<and> 0 \<le> width defaultTunnel \<and> float64 (width defaultTunnel) = Fin (width defaultTunnel)
   \<and> 0 \<le> height defaultTunnel \<and> float64 (height defaultTunnel) = Fin (height defaultTunnel)
   \<and> integratedF [Fin 0, Fin 4, Fin 0] [Fin 0, Fin 1, Fin 0] 0
       = (Fin 0, Fin (2102395 / 524288), Fin 0)
   \<and> exitsF defaultTunnel (Fin 0, Fin (2102395 / 524288), Fin 0)
   \<and> sidewaysF defaultTunnel (Fin 0, Fin (2102395 / 524288), Fin 0)
   \<and> [Fin (- 10), Fin (- (13421773 / 4194304)), Fin (- (13421773 / 4194304))] ! (0 * 3)
       = fround (float64 (entryX defaultTunnel))
   \<and> slots [Fin 1, Fin 0, Fin 0] 0 = (fround (Fin 1), Fin 0, Fin 0)
   \<and> fle (fabs ([Fin (- 10), Fin (- (13421773 / 4194304)), Fin (- (13421773 / 4194304))]
                 ! (0 * 3 + 1)))
          (fround (fmul (halfWidth defaultTunnel) (float64 0.8)))
   \<and> fle (fabs ([Fin (- 10), Fin (- (13421773 / 4194304)), Fin (- (13421773 / 4194304))]
                 ! (0 * 3 + 2)))
          (fround (fmul (halfHeight defaultTunnel) (float64 0.8)))"
proof -
  have out: "exitsF defaultTunnel (Fin 0, Fin (2102395 / 524288), Fin 0)"
    and side: "sidewaysF defaultTunnel (Fin 0, Fin (2102395 / 524288), Fin 0)"
    by (simp_all add: exitsF_def sidewaysF_def halfWidth_default defaultTunnel_fields)
  have len: "1 * 3 \<le> length [Fin 0, Fin 4, Fin 0]" "1 * 3 \<le> length [Fin 0, Fin 1, Fin 0]"
    and i: "(0::nat) < 1"
    by simp_all
  from recycled_particle [OF scenario_wall len i zeroRandom_unit defaultTunnel_doubles
      integrated_wall out] side
  have "[Fin (- 10), Fin (- (13421773 / 4194304)), Fin (- (13421773 / 4194304))] ! (0 * 3)
       = fround (float64 (entryX defaultTunnel))
   \<and> slots [Fin 1, Fin 0, Fin 0] 0 = (fround (Fin 1), Fin 0, Fin 0)
   \<and> fle (fabs ([Fin (- 10), Fin (- (13421773 / 4194304)), Fin (- (13421773 / 4194304))]
                 ! (0 * 3 + 1)))
          (fround (fmul (halfWidth defaultTunnel) (float64 0.8)))
   \<and> fle (fabs ([Fin (- 10), Fin (- (13421773 / 4194304)), Fin (- (13421773 / 4194304))]
                 ! (0 * 3 + 2)))
          (fround (fmul (halfHeight defaultTunnel) (float64 0.8)))"
    by (simp only: if_True)
  with scenario_wall zeroRandom_unit defaultTunnel_doubles integrated_wall out side
  show ?thesis by blast
qed

text \<open>
  The claim as stated fails because the arrays hold singles. With free-stream speed 1.3
  the particle recycled from the exit plane gets the velocity \<open>5452595 / 2\<^sup>2\<^sup>2\<close>, the
  single nearest to 1.3, which is less than the double 1.3. With \<open>Math.random\<close>
  returning 0 the particle recycled from the side wall gets \<open>y = z = - 13421773 / 2\<^sup>2\<^sup>2\<close>,
  which is beyond 80 percent of the half-width, 3.2.
\<close>

theorem recycled_velocity_is_rounded:
  "moveParticlesF defaultTunnel (float64 (13 / 10)) zeroRandom 1
     ([Fin 10, Fin 0, Fin 0], [Fin 1, Fin 0, Fin 0], 0)
   = ([Fin (- 10), Fin 0, Fin 0], [Fin (5452595 / 4194304), Fin 0, Fin 0], 0)
   \<and> float64 (13 / 10) = Fin (5854679515581645 / 4503599627370496)
   \<and> (5452595 / 4194304 :: real) < 5854679515581645 / 4503599627370496
   \<and> moveParticlesF defaultTunnel (Fin 1) zeroRandom 1
       ([Fin 0, Fin 4, Fin 0], [Fin 0, Fin 1, Fin 0], 0)
     = ([Fin (- 10), Fin (- (13421773 / 4194304)), Fin (- (13421773 / 4194304))],
        [Fin 1, Fin 0, Fin 0], 2)
   \<and> (0.8 * (width defaultTunnel / 2) :: real) < \<bar>- (13421773 / 4194304)\<bar>"
proof -
  have "(5452595 / 4194304 :: real) < 5854679515581645 / 4503599627370496" by simp
  moreover have "(0.8 * (width defaultTunnel / 2) :: real) < \<bar>- (13421773 / 4194304)\<bar>"
    by (simp add: defaultTunnel_fields)
  ultimately show ?thesis using scenario1 float64_13 scenario_wall by blast
qed




end
